theory Spec2Isabelle
  imports Main "HOL-Library.List_Lexorder" "HOL-Library.Char_ord"
begin

section \<open>Strings, errors and ordered containers\<close>

text \<open>
  A C++ \<open>std::string\<close> is a \<open>string\<close> (a list of bytes); \<open>std::string\<close> comparison is
  the lexicographic order on unsigned bytes, which is the order of \<open>List_Lexorder\<close> over
  \<open>Char_ord\<close>.
\<close>

abbreviation dquote :: char where "dquote \<equiv> CHR 0x22"
abbreviation backslash :: char where "backslash \<equiv> CHR 0x5C"
abbreviation newline :: char where "newline \<equiv> CHR 0x0A"
abbreviation carriage_return :: char where "carriage_return \<equiv> CHR 0x0D"
abbreviation tab :: char where "tab \<equiv> CHR 0x09"

text \<open>
  Exceptions are values. Each constructor is one exception class of the source; the
  strings are the format string of the throw site and its arguments.
  \<open>AssertionFailure\<close> stands for a failed \<open>assert\<close> (the process aborts).
\<close>

datatype error =
    FormatError string "string list"
  | Error string "string list"
  | InvalidPath string
  | NoSuchBinaryCacheFile string
  | SubstituteGone string
  | AssertionFailure string
  | OtherError string

text \<open>
  \<open>std::map<K, V>\<close> is an association list kept sorted by key with distinct keys;
  \<open>std::set<T>\<close> is a sorted list without duplicates. Iteration over either is
  iteration over the list.
\<close>

fun map_emplace :: "'k::linorder \<Rightarrow> 'v \<Rightarrow> ('k \<times> 'v) list \<Rightarrow> ('k \<times> 'v) list" where
  "map_emplace k v [] = [(k, v)]"
| "map_emplace k v ((k', v') # m) =
     (if k < k' then (k, v) # (k', v') # m
      else if k = k' then (k', v') # m
      else (k', v') # map_emplace k v m)"

fun map_insert_or_assign :: "'k::linorder \<Rightarrow> 'v \<Rightarrow> ('k \<times> 'v) list \<Rightarrow> ('k \<times> 'v) list" where
  "map_insert_or_assign k v [] = [(k, v)]"
| "map_insert_or_assign k v ((k', v') # m) =
     (if k < k' then (k, v) # (k', v') # m
      else if k = k' then (k, v) # m
      else (k', v') # map_insert_or_assign k v m)"

fun set_insert :: "'a::linorder \<Rightarrow> 'a list \<Rightarrow> 'a list" where
  "set_insert x [] = [x]"
| "set_insert x (y # ys) =
     (if x < y then x # y # ys
      else if x = y then y # ys
      else y # set_insert x ys)"

definition is_map :: "('k::linorder \<times> 'v) list \<Rightarrow> bool" where
  "is_map m = (sorted (map fst m) \<and> distinct (map fst m))"

definition is_set :: "'a::linorder list \<Rightarrow> bool" where
  "is_set s = (sorted s \<and> distinct s)"

section \<open>Hashes, store paths and the store\<close>

datatype HashType = htMD5 | htSHA1 | htSHA256 | htSHA512

record Hash =
  type :: HashType
  digest :: string

datatype FileIngestionMethod = Flat | Recursive

record FixedOutputHash =
  "method" :: FileIngestionMethod
  hash :: Hash

text \<open>
  A \<open>StorePath\<close> is its base name \<open><hashPart>-<name>\<close>; store paths are ordered by base
  name.
\<close>

type_synonym StorePath = string

type_synonym Path = string

text \<open>
  The \<open>Store\<close> methods and the hash helpers that the derivation codec calls are declared
  in headers outside this fragment. They are parameters of the model: a \<open>Store\<close> value
  carries one function for each of them.
  \<^item> \<open>parseStorePath\<close>, \<open>printStorePath\<close>, \<open>makeFixedOutputPath\<close>, \<open>isValidPath\<close>:
    the \<open>Store\<close> methods of these names;
  \<^item> \<open>readFile\<close>: \<open>getFSAccessor()->readFile\<close>;
  \<^item> \<open>parseHashType\<close>, \<open>printHashType\<close>: the functions of these names;
  \<^item> \<open>newHash\<close>: the constructor \<open>Hash(string, HashType)\<close>;
  \<^item> \<open>to_string_Base16\<close>: \<open>Hash::to_string(Base16, false)\<close>;
  \<^item> \<open>hashString\<close>: the function of this name;
  \<^item> \<open>pathName\<close>: \<open>StorePath::name\<close>.
\<close>

record Store =
  parseStorePath :: "Path \<Rightarrow> error + StorePath"
  printStorePath :: "StorePath \<Rightarrow> Path"
  makeFixedOutputPath :: "FileIngestionMethod \<Rightarrow> Hash \<Rightarrow> string \<Rightarrow> StorePath"
  isValidPath :: "StorePath \<Rightarrow> bool"
  readFile :: "Path \<Rightarrow> error + string"
  parseHashType :: "string \<Rightarrow> error + HashType"
  printHashType :: "HashType \<Rightarrow> string"
  newHash :: "string \<Rightarrow> HashType \<Rightarrow> error + Hash"
  to_string_Base16 :: "Hash \<Rightarrow> string"
  hashString :: "HashType \<Rightarrow> string \<Rightarrow> Hash"
  pathName :: "StorePath \<Rightarrow> string"

text \<open>
  Modelled from the spec: \<open>FixedOutputHash::printMethodAlgo\<close> is not in this fragment;
  it "yields either \<open><algo>\<close> or \<open>r:<algo>\<close> depending on ingestion method".
\<close>

definition printMethodAlgo :: "Store \<Rightarrow> FixedOutputHash \<Rightarrow> string" where
  "printMethodAlgo store h =
     (case method h of Recursive \<Rightarrow> ''r:'' | Flat \<Rightarrow> '''') @ printHashType store (type (hash h))"

text \<open>
  Modelled from the spec: \<open>Store::printStorePathSet\<close> and \<open>Store::parseStorePathSet\<close> are
  not in this fragment; they convert a set element by element ("sets printed in sorted
  order"), the result being a \<open>std::set\<close> again.
\<close>

definition printStorePathSet :: "Store \<Rightarrow> StorePath list \<Rightarrow> Path list" where
  "printStorePathSet store paths = fold (\<lambda>i res. set_insert (printStorePath store i) res) paths []"

fun parseStorePathSet_loop :: "Store \<Rightarrow> Path list \<Rightarrow> StorePath list \<Rightarrow> error + StorePath list" where
  "parseStorePathSet_loop store [] res = Inr res"
| "parseStorePathSet_loop store (i # paths) res =
     (case parseStorePath store i of
        Inl e \<Rightarrow> Inl e
      | Inr p \<Rightarrow> parseStorePathSet_loop store paths (set_insert p res))"

definition parseStorePathSet :: "Store \<Rightarrow> Path list \<Rightarrow> error + StorePath list" where
  "parseStorePathSet store paths = parseStorePathSet_loop store paths []"

section \<open>Derivations\<close>

datatype DerivationOutput =
    DerivationOutputIntensional StorePath
  | DerivationOutputFixed FixedOutputHash

text \<open>\<open>BasicDerivation\<close> and its extension \<open>Derivation\<close> (which adds \<open>inputDrvs\<close>).\<close>

record Derivation =
  outputs :: "(string \<times> DerivationOutput) list"
  inputSrcs :: "StorePath list"
  platform :: string
  builder :: Path
  args :: "string list"
  env :: "(string \<times> string) list"
  name :: string
  inputDrvs :: "(StorePath \<times> string list) list"

definition emptyDerivation :: Derivation where
  "emptyDerivation =
     \<lparr>outputs = [], inputSrcs = [], platform = [], builder = [], args = [], env = [],
      name = [], inputDrvs = []\<rparr>"

text \<open>\<open>DerivationOutput::path\<close>\<close>

fun path :: "Store \<Rightarrow> string \<Rightarrow> DerivationOutput \<Rightarrow> StorePath" where
  "path store drvName (DerivationOutputIntensional p) = p"
| "path store drvName (DerivationOutputFixed dof) =
     makeFixedOutputPath store (method dof) (hash dof) drvName"

text \<open>
  \<open>BasicDerivation::findOutput\<close>. Its return type is \<open>const StorePath &\<close>, and
  \<open>DerivationOutput::path\<close> returns a \<open>StorePath\<close> by value: \<open>findOutput\<close> computes the
  path into a temporary and returns a reference to it, and the temporary is destroyed
  when \<open>findOutput\<close> returns. A reference is \<open>Reference x\<close> when it refers to an object
  of value \<open>x\<close>, and \<open>DanglingReference\<close> when the object it referred to is no more; a
  successful call of \<open>findOutput\<close> gives its caller the second.
\<close>

datatype 'a reference = Reference 'a | DanglingReference

definition findOutput :: "Store \<Rightarrow> Derivation \<Rightarrow> string \<Rightarrow> error + StorePath reference" where
  "findOutput store drv outputId =
     (case map_of (outputs drv) outputId of
        None \<Rightarrow> Inl (Error ''derivation has no output'' [outputId])
      | Some out \<Rightarrow> (let temporary = path store (name drv) out in Inr DanglingReference))"

subsection \<open>The parser\<close>

text \<open>
  The input stream is the list of the characters not yet read. A parser returns
  \<open>Some (Inr (x, rest))\<close> when the source returns \<open>x\<close> with \<open>rest\<close> left in the stream,
  \<open>Some (Inl e)\<close> when it throws \<open>e\<close>, and \<open>None\<close> when it does not return.
\<close>

type_synonym 'a parser_result = "(error + 'a \<times> string) option"

definition andThen :: "'a parser_result \<Rightarrow> ('a \<Rightarrow> string \<Rightarrow> 'b parser_result) \<Rightarrow> 'b parser_result" where
  "andThen m f =
     (case m of
        None \<Rightarrow> None
      | Some (Inl e) \<Rightarrow> Some (Inl e)
      | Some (Inr (x, rest)) \<Rightarrow> f x rest)"

text \<open>
  \<open>expect\<close>: reads \<open>s.size()\<close> characters and compares them with \<open>s\<close>. When the stream is
  shorter, the source compares \<open>s\<close> with a partly unwritten buffer; the model takes the
  comparison to fail, as it does on any input that is not \<open>s\<close>.
\<close>

definition expect :: "string \<Rightarrow> string \<Rightarrow> unit parser_result" where
  "expect s inp =
     (if take (length s) inp = s then Some (Inr ((), drop (length s) inp))
      else Some (Inl (FormatError ''expected string'' [s])))"

text \<open>
  The loop of \<open>parseString\<close>. At the end of the stream \<open>str.get()\<close> returns \<open>EOF\<close>, which
  is neither a quote nor a backslash: the loop appends the byte \<open>0xFF\<close> and goes on, so
  it never returns on an unterminated string.
\<close>

partial_function (option) parseString_loop :: "string \<Rightarrow> string \<Rightarrow> string parser_result" where
  "parseString_loop res inp =
     (case inp of
        [] \<Rightarrow> parseString_loop (res @ [CHR 0xFF]) []
      | c # cs \<Rightarrow>
          if c = dquote then Some (Inr (res, cs))
          else if c = backslash then
            (case cs of
               [] \<Rightarrow> parseString_loop (res @ [CHR 0xFF]) []
             | d # ds \<Rightarrow>
                 if d = CHR ''n'' then parseString_loop (res @ [newline]) ds
                 else if d = CHR ''r'' then parseString_loop (res @ [carriage_return]) ds
                 else if d = CHR ''t'' then parseString_loop (res @ [tab]) ds
                 else parseString_loop (res @ [d]) ds)
          else parseString_loop (res @ [c]) cs)"

declare parseString_loop.simps [code]

definition parseString :: "string \<Rightarrow> string parser_result" where
  "parseString inp = andThen (expect [dquote] inp) (\<lambda>_ inp1. parseString_loop [] inp1)"

definition parsePath :: "string \<Rightarrow> Path parser_result" where
  "parsePath inp =
     andThen (parseString inp) (\<lambda>s rest.
       if length s = 0 \<or> hd s \<noteq> CHR ''/'' then Some (Inl (FormatError ''bad path in derivation'' [s]))
       else Some (Inr (s, rest)))"

definition endOfList :: "string \<Rightarrow> bool \<times> string" where
  "endOfList inp =
     (case inp of
        [] \<Rightarrow> (False, inp)
      | c # cs \<Rightarrow>
          if c = CHR '','' then (False, cs)
          else if c = CHR '']'' then (True, cs)
          else (False, inp))"

text \<open>
  The five loops \<open>while (!endOfList(str)) body\<close> of the parser, as one combinator:
  \<open>body\<close> parses one element and \<open>upd\<close> stores it.
\<close>

partial_function (option) whileNotEndOfList ::
  "(string \<Rightarrow> 'a parser_result) \<Rightarrow> ('a \<Rightarrow> 'b \<Rightarrow> 'b) \<Rightarrow> 'b \<Rightarrow> string \<Rightarrow> 'b parser_result" where
  "whileNotEndOfList body upd acc inp =
     (case endOfList inp of
        (eol, rest) \<Rightarrow>
          if eol then Some (Inr (acc, rest))
          else
            (case body rest of
               None \<Rightarrow> None
             | Some (Inl e) \<Rightarrow> Some (Inl e)
             | Some (Inr (x, rest')) \<Rightarrow> whileNotEndOfList body upd (upd x acc) rest'))"

declare whileNotEndOfList.simps [code]

definition parseStrings :: "bool \<Rightarrow> string \<Rightarrow> string list parser_result" where
  "parseStrings arePaths inp =
     whileNotEndOfList (if arePaths then parsePath else parseString) set_insert [] inp"

definition liftError :: "error + 'a \<Rightarrow> string \<Rightarrow> 'a parser_result" where
  "liftError r rest = (case r of Inl e \<Rightarrow> Some (Inl e) | Inr x \<Rightarrow> Some (Inr (x, rest)))"

definition parseDerivationOutput :: "Store \<Rightarrow> string \<Rightarrow> DerivationOutput parser_result" where
  "parseDerivationOutput store inp =
     andThen (expect '','' inp) (\<lambda>_ inp.
     andThen (parsePath inp) (\<lambda>s inp.
     andThen (liftError (parseStorePath store s) inp) (\<lambda>path inp.
     andThen (expect '','' inp) (\<lambda>_ inp.
     andThen (parseString inp) (\<lambda>hashAlgo inp.
     andThen (expect '','' inp) (\<lambda>_ inp.
     andThen (parseString inp) (\<lambda>hash inp.
     andThen (expect '')'' inp) (\<lambda>_ inp.
       if hashAlgo \<noteq> '''' then
         (let (method, hashAlgo) =
                (if take 2 hashAlgo = ''r:'' then (Recursive, drop 2 hashAlgo)
                 else (Flat, hashAlgo))
          in andThen (liftError (parseHashType store hashAlgo) inp) (\<lambda>hashType inp.
             andThen (liftError (newHash store hash hashType) inp) (\<lambda>h inp.
               Some (Inr (DerivationOutputFixed \<lparr>method = method, hash = h\<rparr>, inp)))))
       else Some (Inr (DerivationOutputIntensional path, inp))))))))))"


text \<open>
  The bodies of the loops of \<open>parseDerivation\<close> over outputs, input derivations and
  environment variables. In the second, the source evaluates
  \<open>store.parseStorePath(drvPath)\<close> and \<open>parseStrings(str, false)\<close> as arguments of one
  call, in an order the language leaves open; the model reads the strings first.
\<close>

definition parseOutputEntry :: "Store \<Rightarrow> string \<Rightarrow> (string \<times> DerivationOutput) parser_result" where
  "parseOutputEntry store inp =
     andThen (expect ''('' inp) (\<lambda>_ inp.
     andThen (parseString inp) (\<lambda>outputId inp.
     andThen (parseDerivationOutput store inp) (\<lambda>output inp.
       Some (Inr ((outputId, output), inp)))))"

definition parseInputDrvEntry :: "Store \<Rightarrow> string \<Rightarrow> (StorePath \<times> string list) parser_result" where
  "parseInputDrvEntry store inp =
     andThen (expect ''('' inp) (\<lambda>_ inp.
     andThen (parsePath inp) (\<lambda>drvPath inp.
     andThen (expect '',['' inp) (\<lambda>_ inp.
     andThen (parseStrings False inp) (\<lambda>ids inp.
     andThen (liftError (parseStorePath store drvPath) inp) (\<lambda>p inp.
     andThen (expect '')'' inp) (\<lambda>_ inp.
       Some (Inr ((p, ids), inp))))))))"

definition parseEnvEntry :: "string \<Rightarrow> (string \<times> string) parser_result" where
  "parseEnvEntry inp =
     andThen (expect ''('' inp) (\<lambda>_ inp.
     andThen (parseString inp) (\<lambda>name inp.
     andThen (expect '','' inp) (\<lambda>_ inp.
     andThen (parseString inp) (\<lambda>value inp.
     andThen (expect '')'' inp) (\<lambda>_ inp.
       Some (Inr ((name, value), inp)))))))"

definition parseDerivation :: "Store \<Rightarrow> string \<Rightarrow> string \<Rightarrow> Derivation parser_result" where
  "parseDerivation store s name' =
     (let drv = emptyDerivation\<lparr>name := name'\<rparr> in
      andThen (expect ''Derive(['' s) (\<lambda>_ inp.
      andThen (whileNotEndOfList (parseOutputEntry store)
                 (\<lambda>(outputId, output) drv. drv\<lparr>outputs := map_emplace outputId output (outputs drv)\<rparr>)
                 drv inp) (\<lambda>drv inp.
      andThen (expect '',['' inp) (\<lambda>_ inp.
      andThen (whileNotEndOfList (parseInputDrvEntry store)
                 (\<lambda>(p, ids) drv. drv\<lparr>inputDrvs := map_insert_or_assign p ids (inputDrvs drv)\<rparr>)
                 drv inp) (\<lambda>drv inp.
      andThen (expect '',['' inp) (\<lambda>_ inp.
      andThen (parseStrings True inp) (\<lambda>srcs inp.
      andThen (liftError (parseStorePathSet store srcs) inp) (\<lambda>srcs inp.
      let drv = drv\<lparr>inputSrcs := srcs\<rparr> in
      andThen (expect '','' inp) (\<lambda>_ inp.
      andThen (parseString inp) (\<lambda>platform inp.
      let drv = drv\<lparr>platform := platform\<rparr> in
      andThen (expect '','' inp) (\<lambda>_ inp.
      andThen (parseString inp) (\<lambda>builder inp.
      let drv = drv\<lparr>builder := builder\<rparr> in
      andThen (expect '',['' inp) (\<lambda>_ inp.
      andThen (whileNotEndOfList parseString (\<lambda>a drv. drv\<lparr>args := args drv @ [a]\<rparr>) drv inp)
        (\<lambda>drv inp.
      andThen (expect '',['' inp) (\<lambda>_ inp.
      andThen (whileNotEndOfList parseEnvEntry
                 (\<lambda>(name, value) drv. drv\<lparr>env := map_insert_or_assign name value (env drv)\<rparr>)
                 drv inp) (\<lambda>drv inp.
      andThen (expect '')'' inp) (\<lambda>_ inp.
        Some (Inr (drv, inp)))))))))))))))))))"

text \<open>
  \<open>Store::readDerivation\<close>: a \<open>FormatError\<close> of the parser is rethrown as an \<open>Error\<close>;
  the result of the parser is returned whatever is left in the stream.
\<close>

definition readDerivation :: "Store \<Rightarrow> StorePath \<Rightarrow> (error + Derivation) option" where
  "readDerivation store drvPath =
     (case readFile store (printStorePath store drvPath) of
        Inl e \<Rightarrow> Some (Inl e)
      | Inr s \<Rightarrow>
          (case parseDerivation store s (pathName store drvPath) of
             None \<Rightarrow> None
           | Some (Inl (FormatError msg as)) \<Rightarrow>
               Some (Inl (Error ''error parsing derivation'' (printStorePath store drvPath # msg # as)))
           | Some (Inl e) \<Rightarrow> Some (Inl e)
           | Some (Inr (drv, rest)) \<Rightarrow> Some (Inr drv)))"

subsection \<open>The printer\<close>

text \<open>\<open>printString\<close> writes each character through \<open>escapeChar\<close>, between two quotes.\<close>

definition escapeChar :: "char \<Rightarrow> string" where
  "escapeChar c =
     (if c = dquote \<or> c = backslash then [backslash, c]
      else if c = newline then [backslash, CHR ''n'']
      else if c = carriage_return then [backslash, CHR ''r'']
      else if c = tab then [backslash, CHR ''t'']
      else [c])"

definition printString :: "string \<Rightarrow> string" where
  "printString s = [dquote] @ concat (map escapeChar s) @ [dquote]"

definition printUnquotedString :: "string \<Rightarrow> string" where
  "printUnquotedString s = [dquote] @ s @ [dquote]"

text \<open>
  The loops that print a list with a \<open>first\<close> flag: a comma before every element but the
  first.
\<close>

fun printSeparated :: "bool \<Rightarrow> ('a \<Rightarrow> string) \<Rightarrow> 'a list \<Rightarrow> string" where
  "printSeparated first f [] = []"
| "printSeparated first f (i # is) =
     (if first then [] else '','') @ f i @ printSeparated False f is"

definition printStrings :: "string list \<Rightarrow> string" where
  "printStrings ss = ''['' @ printSeparated True printString ss @ '']''"

definition printUnquotedStrings :: "string list \<Rightarrow> string" where
  "printUnquotedStrings ss = ''['' @ printSeparated True printUnquotedString ss @ '']''"

text \<open>
  What the loops of \<open>unparse\<close> append for one output, one input derivation and one
  environment variable.
\<close>

definition printOutput :: "Store \<Rightarrow> string \<Rightarrow> bool \<Rightarrow> string \<times> DerivationOutput \<Rightarrow> string" where
  "printOutput store drvName maskOutputs i =
     ''('' @ printUnquotedString (fst i) @
     '','' @ printUnquotedString
              (if maskOutputs then '''' else printStorePath store (path store drvName (snd i))) @
     (case snd i of
        DerivationOutputFixed h \<Rightarrow>
          '','' @ printUnquotedString (printMethodAlgo store h) @
          '','' @ printUnquotedString (to_string_Base16 store (hash h))
      | DerivationOutputIntensional _ \<Rightarrow>
          '','' @ printUnquotedString '''' @
          '','' @ printUnquotedString '''') @
     '')''"

definition printInput :: "string \<times> string list \<Rightarrow> string" where
  "printInput i = ''('' @ printUnquotedString (fst i) @ '','' @ printUnquotedStrings (snd i) @ '')''"

definition printEnvEntry :: "Derivation \<Rightarrow> bool \<Rightarrow> string \<times> string \<Rightarrow> string" where
  "printEnvEntry drv maskOutputs i =
     ''('' @ printString (fst i) @
     '','' @ printString (if maskOutputs \<and> fst i \<in> fst ` set (outputs drv) then '''' else snd i) @
     '')''"

definition unparse ::
  "Store \<Rightarrow> Derivation \<Rightarrow> bool \<Rightarrow> (string \<times> string list) list option \<Rightarrow> string" where
  "unparse store drv maskOutputs actualInputs =
     ''Derive(['' @
     printSeparated True (printOutput store (name drv) maskOutputs) (outputs drv) @
     ''],['' @
     (case actualInputs of
        Some inputs \<Rightarrow> printSeparated True printInput inputs
      | None \<Rightarrow>
          printSeparated True (\<lambda>i. printInput (printStorePath store (fst i), snd i)) (inputDrvs drv)) @
     ''],'' @
     printUnquotedStrings (printStorePathSet store (inputSrcs drv)) @
     '','' @ printUnquotedString (platform drv) @
     '','' @ printString (builder drv) @
     '','' @ printStrings (args drv) @
     '',['' @
     printSeparated True (printEnvEntry drv maskOutputs) (env drv) @
     ''])''"

text \<open>\<open>BasicDerivation::isFixedOutput\<close>\<close>

definition isFixedOutput :: "Derivation \<Rightarrow> bool" where
  "isFixedOutput drv =
     (length (outputs drv) = 1 \<and> fst (hd (outputs drv)) = ''out'' \<and>
      (case snd (hd (outputs drv)) of DerivationOutputFixed _ \<Rightarrow> True | _ \<Rightarrow> False))"

subsection \<open>Conditions under which a derivation prints to a text that parses back\<close>

text \<open>
  \<open>printUnquotedString\<close> writes a string between quotes as it is; \<open>parseString\<close> ends a
  string at the first quote and drops a backslash. A string survives both when it has
  neither character.
\<close>

definition unquotable :: "string \<Rightarrow> bool" where
  "unquotable s = (dquote \<notin> set s \<and> backslash \<notin> set s)"

text \<open>
  What the codec needs from the store's \<open>printStorePath\<close> and \<open>parseStorePath\<close> at a
  path, and from the hash printers and parsers at a hash.
\<close>

definition printablePath :: "Store \<Rightarrow> StorePath \<Rightarrow> bool" where
  "printablePath store p =
     (unquotable (printStorePath store p) \<and> printStorePath store p \<noteq> [] \<and>
      hd (printStorePath store p) = CHR ''/'' \<and>
      parseStorePath store (printStorePath store p) = Inr p)"

definition printableHash :: "Store \<Rightarrow> Hash \<Rightarrow> bool" where
  "printableHash store h =
     (unquotable (printHashType store (type h)) \<and> printHashType store (type h) \<noteq> [] \<and>
      take 2 (printHashType store (type h)) \<noteq> ''r:'' \<and>
      parseHashType store (printHashType store (type h)) = Inr (type h) \<and>
      unquotable (to_string_Base16 store h) \<and>
      newHash store (to_string_Base16 store h) (type h) = Inr h)"

definition printableOutput :: "Store \<Rightarrow> string \<Rightarrow> string \<times> DerivationOutput \<Rightarrow> bool" where
  "printableOutput store drvName i =
     (unquotable (fst i) \<and> printablePath store (path store drvName (snd i)) \<and>
      (case snd i of
         DerivationOutputFixed h \<Rightarrow> printableHash store (hash h)
       | DerivationOutputIntensional _ \<Rightarrow> True))"

definition printableInputDrv :: "Store \<Rightarrow> StorePath \<times> string list \<Rightarrow> bool" where
  "printableInputDrv store i =
     (printablePath store (fst i) \<and> is_set (snd i) \<and> (\<forall>s \<in> set (snd i). unquotable s))"

definition printableDerivation :: "Store \<Rightarrow> Derivation \<Rightarrow> bool" where
  "printableDerivation store drv =
     (is_map (outputs drv) \<and> is_map (inputDrvs drv) \<and> is_map (env drv) \<and> is_set (inputSrcs drv) \<and>
      (\<forall>i \<in> set (outputs drv). printableOutput store (name drv) i) \<and>
      (\<forall>i \<in> set (inputDrvs drv). printableInputDrv store i) \<and>
      (\<forall>p \<in> set (inputSrcs drv). printablePath store p) \<and>
      unquotable (platform drv))"

subsection \<open>\<open>hashDerivationModulo\<close>\<close>

text \<open>
  \<open>drvHashes\<close>, the process-wide memo table, is state: every function takes the table and
  returns it updated, also when it throws (the insertions made before stay).

  The recursion goes through the derivations that the store holds, and nothing in the
  code bounds it; the model counts the depth of the recursion down from \<open>fuel\<close> and
  returns \<open>None\<close> when the count is used up or when reading a derivation does not
  return.
\<close>

type_synonym DrvHashes = "StorePath \<rightharpoonup> Hash"

text \<open>
  The loop over \<open>drv.inputDrvs\<close> that builds \<open>inputs2\<close>; \<open>recur\<close> is the recursive call
  \<open>hashDerivationModulo(store, _, false)\<close>.
\<close>

fun hashInputs ::
  "(DrvHashes \<Rightarrow> Derivation \<Rightarrow> ((error + Hash) \<times> DrvHashes) option) \<Rightarrow> Store \<Rightarrow> DrvHashes \<Rightarrow>
   (StorePath \<times> string list) list \<Rightarrow> (string \<times> string list) list \<Rightarrow>
   ((error + (string \<times> string list) list) \<times> DrvHashes) option" where
  "hashInputs recur store drvHashes [] inputs2 = Some (Inr inputs2, drvHashes)"
| "hashInputs recur store drvHashes (i # is) inputs2 =
     (case drvHashes (fst i) of
        Some h \<Rightarrow>
          hashInputs recur store drvHashes is
            (map_insert_or_assign (to_string_Base16 store h) (snd i) inputs2)
      | None \<Rightarrow>
          if \<not> isValidPath store (fst i) then
            Some (Inl (AssertionFailure ''store.isValidPath(i.first)''), drvHashes)
          else
            (case readDerivation store (fst i) of
               None \<Rightarrow> None
             | Some (Inl e) \<Rightarrow> Some (Inl e, drvHashes)
             | Some (Inr drv') \<Rightarrow>
                 (case recur drvHashes drv' of
                    None \<Rightarrow> None
                  | Some (Inl e, drvHashes') \<Rightarrow> Some (Inl e, drvHashes')
                  | Some (Inr h, drvHashes') \<Rightarrow>
                      hashInputs recur store (drvHashes'(fst i \<mapsto> h)) is
                        (map_insert_or_assign (to_string_Base16 store h) (snd i) inputs2))))"

primrec hashDerivationModulo ::
  "nat \<Rightarrow> Store \<Rightarrow> DrvHashes \<Rightarrow> Derivation \<Rightarrow> bool \<Rightarrow> ((error + Hash) \<times> DrvHashes) option" where
  "hashDerivationModulo 0 store drvHashes drv maskOutputs = None"
| "hashDerivationModulo (Suc fuel) store drvHashes drv maskOutputs =
     (if isFixedOutput drv then
        (case snd (hd (outputs drv)) of
           DerivationOutputFixed h \<Rightarrow>
             Some (Inr (hashString store htSHA256
                          (''fixed:out:'' @ printMethodAlgo store h @ '':'' @
                           to_string_Base16 store (hash h) @ '':'' @
                           printStorePath store (path store (name drv) (snd (hd (outputs drv)))))),
                   drvHashes)
         | DerivationOutputIntensional _ \<Rightarrow> Some (Inl (OtherError ''bad_variant_access''), drvHashes))
      else
        (case hashInputs (\<lambda>m d. hashDerivationModulo fuel store m d False) store drvHashes
                (inputDrvs drv) [] of
           None \<Rightarrow> None
         | Some (Inl e, drvHashes') \<Rightarrow> Some (Inl e, drvHashes')
         | Some (Inr inputs2, drvHashes') \<Rightarrow>
             Some (Inr (hashString store htSHA256 (unparse store drv maskOutputs (Some inputs2))),
                   drvHashes')))"





subsection \<open>An example store\<close>

text \<open>
  A small store to run the definitions on: the store directory is \<open>/nix/store\<close>, the
  files are an association list from printed paths to contents, a hash is printed as
  its digest, and the "hash" of a string is the string (so that two hashes are equal
  only when the hashed texts are).
\<close>

definition exampleStore :: "(Path \<times> string) list \<Rightarrow> Store" where
  "exampleStore files =
     \<lparr>parseStorePath =
        (\<lambda>s. if take 11 s = ''/nix/store/'' \<and> 11 < length s then Inr (drop 11 s)
             else Inl (OtherError ''not in the Nix store'')),
      printStorePath = (\<lambda>p. ''/nix/store/'' @ p),
      makeFixedOutputPath =
        (\<lambda>m h n. (case m of Flat \<Rightarrow> ''flat-'' | Recursive \<Rightarrow> ''rec-'') @ digest h @ ''-'' @ n),
      isValidPath = (\<lambda>p. map_of files (''/nix/store/'' @ p) \<noteq> None),
      readFile =
        (\<lambda>p. case map_of files p of None \<Rightarrow> Inl (OtherError ''no such file'') | Some s \<Rightarrow> Inr s),
      parseHashType =
        (\<lambda>s. if s = ''md5'' then Inr htMD5 else if s = ''sha1'' then Inr htSHA1
             else if s = ''sha256'' then Inr htSHA256 else if s = ''sha512'' then Inr htSHA512
             else Inl (OtherError ''unknown hash algorithm'')),
      printHashType =
        (\<lambda>t. case t of htMD5 \<Rightarrow> ''md5'' | htSHA1 \<Rightarrow> ''sha1'' | htSHA256 \<Rightarrow> ''sha256''
              | htSHA512 \<Rightarrow> ''sha512''),
      newHash = (\<lambda>s t. Inr \<lparr>type = t, digest = s\<rparr>),
      to_string_Base16 = digest,
      hashString = (\<lambda>t s. \<lparr>type = t, digest = s\<rparr>),
      pathName = drop 4\<rparr>"

text \<open>The derivation of scenario S1, with a source and an input derivation added.\<close>

definition exampleDrv :: Derivation where
  "exampleDrv =
     \<lparr>outputs = [(''out'', DerivationOutputFixed
                    \<lparr>method = Flat, hash = \<lparr>type = htSHA256, digest = ''abc''\<rparr>\<rparr>)],
      inputSrcs = [''aaa-src'', ''bbb-src''],
      platform = ''x86_64-linux'',
      builder = ''/bin/sh'',
      args = [''-c'', ''echo hi''],
      env = [(''name'', ''hi'')],
      name = ''hi'',
      inputDrvs = [(''ccc-dep.drv'', [''dev'', ''out''])]\<rparr>"

text \<open>
  The hash that a call of \<open>hashDerivationModulo\<close> returns, if it returns one; the
  reference hash of the derivation that the store holds at a valid path, and its
  base-16 text, which is the key of that input in \<open>inputs2\<close>.
\<close>

definition hashOf :: "((error + Hash) \<times> DrvHashes) option \<Rightarrow> Hash option" where
  "hashOf r = (case r of Some (Inr h, _) \<Rightarrow> Some h | _ \<Rightarrow> None)"



text \<open>The example derivation with a backslash in its platform.\<close>

definition backslashDrv :: Derivation where
  "backslashDrv = exampleDrv\<lparr>platform := ''x86_64'' @ [backslash] @ ''linux''\<rparr>"

text \<open>
  A derivation text whose fixed output \<open>out\<close> declares the path \<open>/nix/store/zzz-other\<close>,
  which is not the path that the example store computes from the hash
  (\<open>/nix/store/flat-abc-hi\<close>).
\<close>

definition inconsistentText :: string where
  "inconsistentText =
     ''Derive([('' @ printUnquotedString ''out'' @ '','' @
       printUnquotedString ''/nix/store/zzz-other'' @ '','' @
       printUnquotedString ''sha256'' @ '','' @ printUnquotedString ''abc'' @ '')],[],[],'' @
     printUnquotedString ''x86_64-linux'' @ '','' @ printUnquotedString ''/bin/sh'' @
     '',[],[])''"

definition inconsistentDrv :: Derivation where
  "inconsistentDrv =
     \<lparr>outputs = [(''out'', DerivationOutputFixed
                    \<lparr>method = Flat, hash = \<lparr>type = htSHA256, digest = ''abc''\<rparr>\<rparr>)],
      inputSrcs = [], platform = ''x86_64-linux'', builder = ''/bin/sh'', args = [], env = [],
      name = ''hi'', inputDrvs = []\<rparr>"






text \<open>The text of \<open>inconsistentDrv\<close> with the path that the example store computes.\<close>

definition recomputedText :: string where
  "recomputedText =
     ''Derive([('' @ printUnquotedString ''out'' @ '','' @
       printUnquotedString ''/nix/store/flat-abc-hi'' @ '','' @
       printUnquotedString ''sha256'' @ '','' @ printUnquotedString ''abc'' @ '')],[],[],'' @
     printUnquotedString ''x86_64-linux'' @ '','' @ printUnquotedString ''/bin/sh'' @
     '',[],[])''"

section \<open>The binary cache store\<close>

subsection \<open>Path infos\<close>

text \<open>
  \<open>ValidPathInfo\<close> and its extension \<open>NarInfo\<close>. The field \<open>path\<close> of the source is
  \<open>infoPath\<close> here (\<open>path\<close> is \<open>DerivationOutput::path\<close> above). A hash that is not set
  (\<open>!info.narHash\<close>) is \<open>None\<close>. The sets \<open>references\<close> and \<open>sigs\<close> are sorted lists.
\<close>

record ValidPathInfo =
  infoPath :: StorePath
  deriver :: "StorePath option"
  narHash :: "Hash option"
  references :: "StorePath list"
  registrationTime :: nat
  narSize :: nat
  ultimate :: bool
  sigs :: "string list"
  ca :: "string option"

record NarInfo = ValidPathInfo +
  url :: string
  compression :: string
  fileHash :: "Hash option"
  fileSize :: nat

text \<open>The constructor \<open>NarInfo(const ValidPathInfo &)\<close>: the added fields are empty.\<close>

definition newNarInfo :: "ValidPathInfo \<Rightarrow> NarInfo" where
  "newNarInfo info =
     \<lparr>infoPath = infoPath info, deriver = deriver info, narHash = narHash info,
      references = references info, registrationTime = registrationTime info,
      narSize = narSize info, ultimate = ultimate info, sigs = sigs info, ca = ca info,
      url = [], compression = [], fileHash = None, fileSize = 0\<rparr>"

subsection \<open>Collaborators and state\<close>

datatype FileType = tMissing | tRegular | tSymlink | tDirectory

record NarAccessor =
  stat :: "Path \<Rightarrow> FileType"
  readDirectory :: "Path \<Rightarrow> string list"

text \<open>
  The settings of the store, and the functions it calls that are declared outside this
  fragment, as parameters:
  \<^item> \<open>baseStore\<close>: the \<open>Store\<close> that a binary cache store is;
  \<^item> \<open>compressionMethod\<close>, \<open>writeNARListing\<close>, \<open>writeDebugInfo\<close>, \<open>secretKey\<close>: the
    settings \<open>compression\<close>, \<open>writeNARListing\<close>, \<open>writeDebugInfo\<close> and the key read from
    \<open>secretKeyFile\<close> (\<open>parallelCompression\<close> changes no result and is left out);
  \<^item> \<open>narMagic\<close>: the serialisation of \<open>narVersionMagic1\<close>;
  \<^item> \<open>compress\<close>, \<open>makeDecompressionSink\<close>: the functions of these names; a decompression
    sink is the function from the compressed bytes written to it to the bytes it has
    passed on when \<open>finish\<close> returns;
  \<^item> \<open>to_string_Base32\<close>: \<open>Hash::to_string(Base32, false)\<close>;
  \<^item> \<open>narInfoToString\<close>, \<open>parseNarInfo\<close>: \<open>NarInfo::to_string\<close> and the constructor
    \<open>NarInfo(store, text, whence)\<close>;
  \<^item> \<open>makeNarAccessor\<close>, \<open>listNar\<close>: the functions of these names, the second with the
    JSON document around it;
  \<^item> \<open>signDetached\<close>: the signature that \<open>NarInfo::sign\<close> adds;
  \<^item> \<open>dumpDebugInfoJson\<close>: the JSON object with \<open>archive\<close> and \<open>member\<close>, dumped.
\<close>

record Config =
  baseStore :: Store
  compressionMethod :: string
  writeNARListing :: bool
  writeDebugInfo :: bool
  secretKey :: "string option"
  narMagic :: string
  compress :: "string \<Rightarrow> string \<Rightarrow> error + string"
  makeDecompressionSink :: "string \<Rightarrow> error + (string \<Rightarrow> error + string)"
  to_string_Base32 :: "Hash \<Rightarrow> string"
  narInfoToString :: "NarInfo \<Rightarrow> string"
  parseNarInfo :: "string \<Rightarrow> string \<Rightarrow> error + NarInfo"
  makeNarAccessor :: "string \<Rightarrow> error + NarAccessor"
  listNar :: "NarAccessor \<Rightarrow> string"
  signDetached :: "string \<Rightarrow> NarInfo \<Rightarrow> string"
  dumpDebugInfoJson :: "string \<Rightarrow> string \<Rightarrow> string"

text \<open>
  The statistics counters that the fragment updates (\<open>narWriteCompressionTimeMs\<close> is a
  measured duration and is left out).
\<close>

record Stats =
  narInfoRead :: nat
  narInfoWrite :: nat
  narRead :: nat
  narReadBytes :: nat
  narWrite :: nat
  narWriteAverted :: nat
  narWriteBytes :: nat
  narWriteCompressedBytes :: nat

text \<open>
  The state of a binary cache store: the files of the backend by key, the in-process
  path-info cache and the optional disk cache (both from hash part to a \<open>NarInfo\<close>, or
  to \<open>None\<close> for a path known to be invalid), and the counters.
\<close>

record BinaryCacheStore =
  files :: "string \<rightharpoonup> string"
  pathInfoCache :: "string \<rightharpoonup> NarInfo option"
  diskCache :: "(string \<rightharpoonup> NarInfo option) option"
  stats :: Stats

text \<open>
  Modelled from the spec: \<open>StorePath::hashPart\<close> and \<open>StorePath::to_string\<close> are not in
  this fragment. A store path has the text \<open><hashPart>-<name>\<close> with a hash part of 32
  characters.
\<close>

definition hashPart :: "StorePath \<Rightarrow> string" where
  "hashPart p = take 32 p"

definition to_string :: "StorePath \<Rightarrow> string" where
  "to_string p = p"

text \<open>
  Modelled from the spec: the backend (\<open>fileExists\<close>, \<open>upsertFile\<close> and the \<open>getFile\<close>
  that a backend overrides, here the one that writes to a sink) is not in this
  fragment. It is "a flat key-value space"; a fetch of a missing key raises
  \<open>NoSuchBinaryCacheFile\<close>; \<open>upsertFile\<close> is "atomic per key". The MIME type is not
  stored.
\<close>

definition fileExists :: "BinaryCacheStore \<Rightarrow> string \<Rightarrow> bool" where
  "fileExists st key = (files st key \<noteq> None)"

definition upsertFile :: "BinaryCacheStore \<Rightarrow> string \<Rightarrow> string \<Rightarrow> string \<Rightarrow> BinaryCacheStore" where
  "upsertFile st key data mimeType = st\<lparr>files := (files st)(key \<mapsto> data)\<rparr>"

definition getFile_sink :: "BinaryCacheStore \<Rightarrow> string \<Rightarrow> error + string" where
  "getFile_sink st key =
     (case files st key of None \<Rightarrow> Inl (NoSuchBinaryCacheFile key) | Some data \<Rightarrow> Inr data)"

text \<open>
  \<open>getFile(path)\<close>, which returns a null pointer for \<open>NoSuchBinaryCacheFile\<close>, and
  \<open>getFile(path, callback)\<close>, which calls it.
\<close>

definition getFile :: "BinaryCacheStore \<Rightarrow> string \<Rightarrow> error + string option" where
  "getFile st key =
     (case getFile_sink st key of
        Inl (NoSuchBinaryCacheFile _) \<Rightarrow> Inr None
      | Inl e \<Rightarrow> Inl e
      | Inr data \<Rightarrow> Inr (Some data))"

definition getFile_callback :: "BinaryCacheStore \<Rightarrow> string \<Rightarrow> error + string option" where
  "getFile_callback st key = getFile st key"

definition narInfoFileFor :: "StorePath \<Rightarrow> string" where
  "narInfoFileFor storePath = hashPart storePath @ ''.narinfo''"

definition writeNarInfo :: "Config \<Rightarrow> BinaryCacheStore \<Rightarrow> NarInfo \<Rightarrow> BinaryCacheStore" where
  "writeNarInfo cfg st narInfo =
     (let narInfoFile = narInfoFileFor (infoPath narInfo);
          st = upsertFile st narInfoFile (narInfoToString cfg narInfo) ''text/x-nix-narinfo'';
          hashPart' = hashPart (infoPath narInfo);
          st = st\<lparr>pathInfoCache := (pathInfoCache st)(hashPart' \<mapsto> Some narInfo)\<rparr>
      in case diskCache st of
           None \<Rightarrow> st
         | Some dc \<Rightarrow> st\<lparr>diskCache := Some (dc(hashPart' \<mapsto> Some narInfo))\<rparr>)"

definition isValidPathUncached :: "BinaryCacheStore \<Rightarrow> StorePath \<Rightarrow> bool" where
  "isValidPathUncached st storePath = fileExists st (narInfoFileFor storePath)"

text \<open>
  \<open>queryPathInfoUncached\<close>: the callback gets a null pointer (\<open>Inr None\<close>), a \<open>NarInfo\<close>,
  or an exception.
\<close>

definition queryPathInfoUncached ::
  "Config \<Rightarrow> BinaryCacheStore \<Rightarrow> StorePath \<Rightarrow> (error + NarInfo option) \<times> BinaryCacheStore" where
  "queryPathInfoUncached cfg st storePath =
     (let narInfoFile = narInfoFileFor storePath in
      case getFile_callback st narInfoFile of
        Inl e \<Rightarrow> (Inl e, st)
      | Inr None \<Rightarrow> (Inr None, st)
      | Inr (Some data) \<Rightarrow>
          (let st = st\<lparr>stats := (stats st)\<lparr>narInfoRead := narInfoRead (stats st) + 1\<rparr>\<rparr> in
           case parseNarInfo cfg data narInfoFile of
             Inl e \<Rightarrow> (Inl e, st)
           | Inr narInfo \<Rightarrow> (Inr (Some narInfo), st)))"

text \<open>
  Modelled from the spec: \<open>Store::isValidPath\<close> and \<open>Store::queryPathInfo\<close> are not in
  this fragment. "On lookup order: tier-1, tier-2, backend. On write (successful fetch
  or ingest): populate both tiers." A path that is not found makes \<open>queryPathInfo\<close>
  raise \<open>InvalidPath\<close>. Expiry of cache entries is time and is left out.
\<close>

definition lookupCaches :: "BinaryCacheStore \<Rightarrow> string \<Rightarrow> NarInfo option option" where
  "lookupCaches st key =
     (case pathInfoCache st key of
        Some v \<Rightarrow> Some v
      | None \<Rightarrow> (case diskCache st of None \<Rightarrow> None | Some dc \<Rightarrow> dc key))"

definition isValidPath' :: "BinaryCacheStore \<Rightarrow> StorePath \<Rightarrow> bool" where
  "isValidPath' st storePath =
     (case lookupCaches st (hashPart storePath) of
        Some v \<Rightarrow> v \<noteq> None
      | None \<Rightarrow> isValidPathUncached st storePath)"

definition populateCaches :: "BinaryCacheStore \<Rightarrow> string \<Rightarrow> NarInfo \<Rightarrow> BinaryCacheStore" where
  "populateCaches st key narInfo =
     (let st = st\<lparr>pathInfoCache := (pathInfoCache st)(key \<mapsto> Some narInfo)\<rparr>
      in case diskCache st of
           None \<Rightarrow> st
         | Some dc \<Rightarrow> st\<lparr>diskCache := Some (dc(key \<mapsto> Some narInfo))\<rparr>)"

definition queryPathInfo ::
  "Config \<Rightarrow> BinaryCacheStore \<Rightarrow> StorePath \<Rightarrow> (error + NarInfo) \<times> BinaryCacheStore" where
  "queryPathInfo cfg st storePath =
     (case lookupCaches st (hashPart storePath) of
        Some (Some narInfo) \<Rightarrow> (Inr narInfo, st)
      | Some None \<Rightarrow> (Inl (InvalidPath (printStorePath (baseStore cfg) storePath)), st)
      | None \<Rightarrow>
          (case queryPathInfoUncached cfg st storePath of
             (Inl e, st) \<Rightarrow> (Inl e, st)
           | (Inr None, st) \<Rightarrow> (Inl (InvalidPath (printStorePath (baseStore cfg) storePath)), st)
           | (Inr (Some narInfo), st) \<Rightarrow>
               (Inr narInfo, populateCaches st (hashPart storePath) narInfo)))"

subsection \<open>\<open>addToStore\<close>\<close>

text \<open>
  The loop that verifies the references. It stops at the first query that throws; an
  \<open>InvalidPath\<close> is rethrown as the \<open>Error\<close> that names the path and the reference.
\<close>

fun verifyReferences ::
  "Config \<Rightarrow> BinaryCacheStore \<Rightarrow> ValidPathInfo \<Rightarrow> StorePath list \<Rightarrow> error option \<times> BinaryCacheStore" where
  "verifyReferences cfg st info [] = (None, st)"
| "verifyReferences cfg st info (ref # refs) =
     (if ref \<noteq> infoPath info then
        (case queryPathInfo cfg st ref of
           (Inl (InvalidPath _), st) \<Rightarrow>
             (Some (Error ''cannot add to the binary cache because the reference is not valid''
                      [printStorePath (baseStore cfg) (infoPath info), printStorePath (baseStore cfg) ref]),
              st)
         | (Inl e, st) \<Rightarrow> (Some e, st)
         | (Inr _, st) \<Rightarrow> verifyReferences cfg st info refs)
      else verifyReferences cfg st info refs)"

text \<open>The regular expressions \<open>^[0-9a-f]{2}$\<close> and \<open>^[0-9a-f]{38}\.debug$\<close>.\<close>

definition isLowerHex :: "char \<Rightarrow> bool" where
  "isLowerHex c = (c \<in> set ''0123456789abcdef'')"

definition regex1 :: "string \<Rightarrow> bool" where
  "regex1 s = (length s = 2 \<and> list_all isLowerHex s)"

definition regex2 :: "string \<Rightarrow> bool" where
  "regex2 s = (length s = 44 \<and> list_all isLowerHex (take 38 s) \<and> drop 38 s = ''.debug'')"

text \<open>
  The index of debug info files. \<open>doFile\<close> is the task given to the thread pool; the
  tasks write to different keys (one per build id), and the model runs them in the
  order in which the source enqueues them.
\<close>

definition doFile ::
  "Config \<Rightarrow> BinaryCacheStore \<Rightarrow> string \<Rightarrow> string \<Rightarrow> string \<Rightarrow> BinaryCacheStore" where
  "doFile cfg st member key target =
     (if fileExists st key then st
      else upsertFile st key (dumpDebugInfoJson cfg target member) ''application/json'')"

definition debugInfoTasks :: "NarAccessor \<Rightarrow> string \<Rightarrow> (string \<times> string \<times> string) list" where
  "debugInfoTasks narAccessor narUrl =
     (let buildIdDir = ''/lib/debug/.build-id'' in
      if stat narAccessor buildIdDir = tDirectory then
        concat (map (\<lambda>s1.
          let dir = buildIdDir @ ''/'' @ s1 in
          if stat narAccessor dir \<noteq> tDirectory \<or> \<not> regex1 s1 then []
          else
            concat (map (\<lambda>s2.
              let debugPath = dir @ ''/'' @ s2 in
              if stat narAccessor debugPath \<noteq> tRegular \<or> \<not> regex2 s2 then []
              else [(drop 1 debugPath, ''debuginfo/'' @ s1 @ s2, ''../'' @ narUrl)])
              (readDirectory narAccessor dir)))
          (readDirectory narAccessor buildIdDir))
      else [])"

definition writeDebugInfoIndex ::
  "Config \<Rightarrow> BinaryCacheStore \<Rightarrow> NarAccessor \<Rightarrow> string \<Rightarrow> BinaryCacheStore" where
  "writeDebugInfoIndex cfg st narAccessor narUrl =
     fold (\<lambda>(member, key, target) st. doFile cfg st member key target)
       (debugInfoTasks narAccessor narUrl) st"

text \<open>
  The steps of \<open>addToStore\<close> after the checks, in the order of the source: the listing,
  the compression (which fills the \<open>NarInfo\<close>), the debug info index, the NAR file and
  its counters, the signature, the \<open>.narinfo\<close>.
\<close>

definition writeListing ::
  "Config \<Rightarrow> BinaryCacheStore \<Rightarrow> ValidPathInfo \<Rightarrow> NarAccessor \<Rightarrow> BinaryCacheStore" where
  "writeListing cfg st info narAccessor =
     (if writeNARListing cfg
      then upsertFile st (to_string (infoPath info) @ ''.ls'') (listNar cfg narAccessor)
             ''application/json''
      else st)"

definition compressedNarInfo :: "Config \<Rightarrow> NarInfo \<Rightarrow> string \<Rightarrow> NarInfo" where
  "compressedNarInfo cfg narInfo narCompressed =
     narInfo
       \<lparr>compression := compressionMethod cfg,
        fileHash := Some (hashString (baseStore cfg) htSHA256 narCompressed),
        fileSize := length narCompressed,
        url :=
          ''nar/'' @ to_string_Base32 cfg (hashString (baseStore cfg) htSHA256 narCompressed) @
          ''.nar'' @
          (if compressionMethod cfg = ''xz'' then ''.xz''
           else if compressionMethod cfg = ''bzip2'' then ''.bz2''
           else if compressionMethod cfg = ''br'' then ''.br''
           else [])\<rparr>"

definition writeNarFile ::
  "BinaryCacheStore \<Rightarrow> NarInfo \<Rightarrow> string \<Rightarrow> string \<Rightarrow> bool \<Rightarrow> BinaryCacheStore" where
  "writeNarFile st narInfo nar narCompressed repair =
     (let st =
            (if repair \<or> \<not> fileExists st (url narInfo) then
               upsertFile (st\<lparr>stats := (stats st)\<lparr>narWrite := narWrite (stats st) + 1\<rparr>\<rparr>)
                 (url narInfo) narCompressed ''application/x-nix-nar''
             else st\<lparr>stats := (stats st)\<lparr>narWriteAverted := narWriteAverted (stats st) + 1\<rparr>\<rparr>)
      in st\<lparr>stats := (stats st)
              \<lparr>narWriteBytes := narWriteBytes (stats st) + length nar,
               narWriteCompressedBytes := narWriteCompressedBytes (stats st) + length narCompressed\<rparr>\<rparr>)"

definition signNarInfo :: "Config \<Rightarrow> NarInfo \<Rightarrow> NarInfo" where
  "signNarInfo cfg narInfo =
     (case secretKey cfg of
        None \<Rightarrow> narInfo
      | Some key \<Rightarrow> narInfo\<lparr>sigs := set_insert (signDetached cfg key narInfo) (sigs narInfo)\<rparr>)"

definition storeNar ::
  "Config \<Rightarrow> BinaryCacheStore \<Rightarrow> ValidPathInfo \<Rightarrow> NarInfo \<Rightarrow> string \<Rightarrow> bool \<Rightarrow>
   (error + unit) \<times> BinaryCacheStore" where
  "storeNar cfg st info narInfo nar repair =
     (case makeNarAccessor cfg nar of
        Inl e \<Rightarrow> (Inl e, st)
      | Inr narAccessor \<Rightarrow>
          (let st = writeListing cfg st info narAccessor
           in case compress cfg (compressionMethod cfg) nar of
                Inl e \<Rightarrow> (Inl e, st)
              | Inr narCompressed \<Rightarrow>
                  (let narInfo = compressedNarInfo cfg narInfo narCompressed;
                       st = (if writeDebugInfo cfg
                             then writeDebugInfoIndex cfg st narAccessor (url narInfo)
                             else st);
                       st = writeNarFile st narInfo nar narCompressed repair;
                       narInfo = signNarInfo cfg narInfo;
                       st = writeNarInfo cfg st narInfo;
                       st = st\<lparr>stats := (stats st)\<lparr>narInfoWrite := narInfoWrite (stats st) + 1\<rparr>\<rparr>
                   in (Inr (), st))))"

text \<open>
  \<open>addToStore(info, narSource, repair, checkSigs, accessor)\<close>; \<open>nar\<close> is what
  \<open>narSource.drain()\<close> returns. \<open>checkSigs\<close> is not used by the source, and the cache of
  the \<open>accessor\<close> argument is outside the state of the store.
\<close>

definition addToStore ::
  "Config \<Rightarrow> BinaryCacheStore \<Rightarrow> ValidPathInfo \<Rightarrow> string \<Rightarrow> bool \<Rightarrow>
   (error + unit) \<times> BinaryCacheStore" where
  "addToStore cfg st info nar repair =
     (if \<not> repair \<and> isValidPath' st (infoPath info) then (Inr (), st)
      else
        (case verifyReferences cfg st info (references info) of
           (Some e, st) \<Rightarrow> (Inl e, st)
         | (None, st) \<Rightarrow>
             if take (length (narMagic cfg)) nar \<noteq> narMagic cfg then
               (Inl (AssertionFailure ''nar->compare(0, narMagic.size(), narMagic) == 0''), st)
             else
               (let narInfo = (newNarInfo info)
                      \<lparr>narSize := length nar, narHash := Some (hashString (baseStore cfg) htSHA256 nar)\<rparr>
                in if narHash info \<noteq> None \<and> narHash info \<noteq> narHash narInfo then
                     (Inl (Error ''refusing to copy corrupted path to binary cache''
                             [printStorePath (baseStore cfg) (infoPath info)]), st)
                   else storeNar cfg st info narInfo nar repair)))"

subsection \<open>\<open>narFromPath\<close> and \<open>addSignatures\<close>\<close>

text \<open>
  \<open>narFromPath\<close> returns the bytes that the sink has received when the call returns.
  \<open>getFile(info->url, *decompressor)\<close> is the fetch of the backend into the
  decompression sink, and \<open>finish\<close> ends it.
\<close>

definition narFromPath ::
  "Config \<Rightarrow> BinaryCacheStore \<Rightarrow> StorePath \<Rightarrow> (error + string) \<times> BinaryCacheStore" where
  "narFromPath cfg st storePath =
     (case queryPathInfo cfg st storePath of
        (Inl e, st) \<Rightarrow> (Inl e, st)
      | (Inr info, st) \<Rightarrow>
          (case makeDecompressionSink cfg (compression info) of
             Inl e \<Rightarrow> (Inl e, st)
           | Inr decompressor \<Rightarrow>
               (case getFile_sink st (url info) of
                  Inl (NoSuchBinaryCacheFile msg) \<Rightarrow> (Inl (SubstituteGone msg), st)
                | Inl e \<Rightarrow> (Inl e, st)
                | Inr data \<Rightarrow>
                    (case decompressor data of
                       Inl e \<Rightarrow> (Inl e, st)
                     | Inr out \<Rightarrow>
                         (Inr out,
                          st\<lparr>stats := (stats st)
                               \<lparr>narRead := narRead (stats st) + 1,
                                narReadBytes := narReadBytes (stats st) + length out\<rparr>\<rparr>)))))"

definition addSignatures ::
  "Config \<Rightarrow> BinaryCacheStore \<Rightarrow> StorePath \<Rightarrow> string list \<Rightarrow> (error + unit) \<times> BinaryCacheStore" where
  "addSignatures cfg st storePath sigs' =
     (case queryPathInfo cfg st storePath of
        (Inl e, st) \<Rightarrow> (Inl e, st)
      | (Inr info, st) \<Rightarrow>
          (let narInfo = info\<lparr>sigs := fold set_insert sigs' (sigs info)\<rparr>
           in (Inr (), writeNarInfo cfg st narInfo)))"

subsection \<open>An example binary cache\<close>

text \<open>
  A configuration to run the definitions on: no compression, no listing, no debug info
  index, no secret key; \<open>.narinfo\<close> texts are parsed by looking them up in a table.
\<close>

definition exampleConfig :: "(string \<times> NarInfo) list \<Rightarrow> Config" where
  "exampleConfig narInfos =
     \<lparr>baseStore = exampleStore [],
      compressionMethod = ''none'',
      writeNARListing = False,
      writeDebugInfo = False,
      secretKey = None,
      narMagic = ''nix-archive-1'',
      compress =
        (\<lambda>m data. if m = ''none'' then Inr data else Inl (OtherError ''unknown compression method'')),
      makeDecompressionSink =
        (\<lambda>m. if m = ''none'' \<or> m = [] then Inr (\<lambda>data. Inr data)
             else Inl (OtherError ''unknown compression method'')),
      to_string_Base32 = digest,
      narInfoToString =
        (\<lambda>n. ''StorePath: /nix/store/'' @ infoPath n @ [newline] @ ''URL: '' @ url n @ [newline] @
              concat (map (\<lambda>s. ''Sig: '' @ s @ [newline]) (sigs n))),
      parseNarInfo =
        (\<lambda>text whence. case map_of narInfos text of
                          None \<Rightarrow> Inl (OtherError ''bad narinfo'')
                        | Some n \<Rightarrow> Inr n),
      makeNarAccessor = (\<lambda>nar. Inr \<lparr>stat = (\<lambda>p. tMissing), readDirectory = (\<lambda>p. [])\<rparr>),
      listNar = (\<lambda>a. ''{}''),
      signDetached = (\<lambda>key n. key),
      dumpDebugInfoJson = (\<lambda>target member. target @ '' '' @ member)\<rparr>"

definition emptyStats :: Stats where
  "emptyStats =
     \<lparr>narInfoRead = 0, narInfoWrite = 0, narRead = 0, narReadBytes = 0, narWrite = 0,
      narWriteAverted = 0, narWriteBytes = 0, narWriteCompressedBytes = 0\<rparr>"

definition emptyCache :: BinaryCacheStore where
  "emptyCache = \<lparr>files = Map.empty, pathInfoCache = Map.empty, diskCache = None, stats = emptyStats\<rparr>"

text \<open>
  A path info for \<open>hello\<close> without references, a path \<open>bogus\<close> to refer to, and a NAR
  that starts with the example magic.
\<close>

definition helloPath :: StorePath where
  "helloPath = ''0123456789abcdfghijklmnpqrsvwxyz-hello''"

definition bogusPath :: StorePath where
  "bogusPath = ''zyxwvsrqpnmlkjihgfdcba9876543210-bogus''"

definition helloInfo :: ValidPathInfo where
  "helloInfo =
     \<lparr>infoPath = helloPath, deriver = None, narHash = None, references = [],
      registrationTime = 0, narSize = 0, ultimate = False, sigs = [], ca = None\<rparr>"

definition helloNar :: string where
  "helloNar = ''nix-archive-1(type regular contents hello)''"

definition helloNarInfo :: NarInfo where
  "helloNarInfo =
     (newNarInfo helloInfo)
       \<lparr>narSize := length helloNar, narHash := Some \<lparr>type = htSHA256, digest = helloNar\<rparr>,
        compression := ''none'', fileHash := Some \<lparr>type = htSHA256, digest = helloNar\<rparr>,
        fileSize := length helloNar, url := ''nar/'' @ helloNar @ ''.nar''\<rparr>"

text \<open>
  The empty cache after \<open>hello\<close> has been added, and that cache with the NAR file of
  \<open>hello\<close> gone.
\<close>

definition helloCache :: BinaryCacheStore where
  "helloCache = snd (addToStore (exampleConfig []) emptyCache helloInfo helloNar False)"

definition goneCache :: BinaryCacheStore where
  "goneCache = helloCache\<lparr>files := (files helloCache)(url helloNarInfo := None)\<rparr>"

section \<open>Properties of the containers\<close>

lemma map_emplace_last:
  "\<forall>k' \<in> fst ` set m. k' < k \<Longrightarrow> map_emplace k v m = m @ [(k, v)]"
  by (induction m) (auto simp: less_le_not_le)

lemma map_insert_or_assign_last:
  "\<forall>k' \<in> fst ` set m. k' < k \<Longrightarrow> map_insert_or_assign k v m = m @ [(k, v)]"
  by (induction m) (auto simp: less_le_not_le)

lemma set_insert_last:
  "\<forall>y \<in> set s. y < x \<Longrightarrow> set_insert x s = s @ [x]"
  by (induction s) (auto simp: less_le_not_le)

lemma sorted_distinct_append_less:
  "sorted (xs @ x # ys) \<Longrightarrow> distinct (xs @ x # ys) \<Longrightarrow> \<forall>y \<in> set xs. y < (x::'a::linorder)"
  by (auto simp: sorted_append less_le)

lemma fold_map_emplace_append:
  "sorted (map fst (acc @ m)) \<Longrightarrow> distinct (map fst (acc @ m)) \<Longrightarrow>
   fold (\<lambda>(k, v). map_emplace k v) m acc = acc @ m"
proof (induction m arbitrary: acc)
  case Nil
  show ?case by simp
next
  case (Cons kv m)
  obtain k v where kv: "kv = (k, v)" by (cases kv)
  have "\<forall>k' \<in> set (map fst acc). k' < k"
    using Cons.prems sorted_distinct_append_less [of "map fst acc" k "map fst m"] by (simp add: kv)
  then have "map_emplace k v acc = acc @ [(k, v)]"
    by (intro map_emplace_last) simp
  then show ?case
    using Cons.IH [of "acc @ [(k, v)]"] Cons.prems by (simp add: kv)
qed

lemma fold_map_emplace_is_map:
  "is_map m \<Longrightarrow> fold (\<lambda>(k, v). map_emplace k v) m [] = m"
  using fold_map_emplace_append [of "[]" m] by (simp add: is_map_def)

lemma fold_map_insert_or_assign_append:
  "sorted (map fst (acc @ m)) \<Longrightarrow> distinct (map fst (acc @ m)) \<Longrightarrow>
   fold (\<lambda>(k, v). map_insert_or_assign k v) m acc = acc @ m"
proof (induction m arbitrary: acc)
  case Nil
  show ?case by simp
next
  case (Cons kv m)
  obtain k v where kv: "kv = (k, v)" by (cases kv)
  have "\<forall>k' \<in> set (map fst acc). k' < k"
    using Cons.prems sorted_distinct_append_less [of "map fst acc" k "map fst m"] by (simp add: kv)
  then have "map_insert_or_assign k v acc = acc @ [(k, v)]"
    by (intro map_insert_or_assign_last) simp
  then show ?case
    using Cons.IH [of "acc @ [(k, v)]"] Cons.prems by (simp add: kv)
qed

lemma fold_map_insert_or_assign_is_map:
  "is_map m \<Longrightarrow> fold (\<lambda>(k, v). map_insert_or_assign k v) m [] = m"
  using fold_map_insert_or_assign_append [of "[]" m] by (simp add: is_map_def)

lemma fold_set_insert_append:
  "sorted (acc @ s) \<Longrightarrow> distinct (acc @ s) \<Longrightarrow> fold set_insert s acc = acc @ s"
proof (induction s arbitrary: acc)
  case Nil
  show ?case by simp
next
  case (Cons x s)
  have "\<forall>y \<in> set acc. y < x"
    using Cons.prems sorted_distinct_append_less [of acc x s] by simp
  then have "set_insert x acc = acc @ [x]"
    by (rule set_insert_last)
  then show ?case
    using Cons.IH [of "acc @ [x]"] Cons.prems by simp
qed

lemma fold_set_insert_is_set: "is_set s \<Longrightarrow> fold set_insert s [] = s"
  using fold_set_insert_append [of "[]" s] by (simp add: is_set_def)

lemma set_set_insert [simp]: "set (set_insert x s) = insert x (set s)"
  by (induction s) auto

lemma is_set_set_insert: "is_set s \<Longrightarrow> is_set (set_insert x s)"
  by (induction s) (auto simp: is_set_def)

lemma is_set_fold_set_insert: "is_set acc \<Longrightarrow> is_set (fold (\<lambda>i. set_insert (f i)) xs acc)"
  by (induction xs arbitrary: acc) (simp_all add: is_set_set_insert)

lemma set_fold_set_insert: "set (fold (\<lambda>i. set_insert (f i)) xs acc) = f ` set xs \<union> set acc"
  by (induction xs arbitrary: acc) auto

lemma is_set_eqI: "is_set xs \<Longrightarrow> is_set ys \<Longrightarrow> set xs = set ys \<Longrightarrow> xs = ys"
  by (simp add: is_set_def sorted_distinct_set_unique)

lemma is_set_printStorePathSet: "is_set (printStorePathSet store paths)"
  unfolding printStorePathSet_def by (rule is_set_fold_set_insert) (simp add: is_set_def)

lemma set_printStorePathSet: "set (printStorePathSet store paths) = printStorePath store ` set paths"
  unfolding printStorePathSet_def by (simp add: set_fold_set_insert)

lemma parseStorePathSet_loop_fold:
  "\<forall>i \<in> set ps. parseStorePath store i = Inr (g i) \<Longrightarrow>
   parseStorePathSet_loop store ps res = Inr (fold (\<lambda>i. set_insert (g i)) ps res)"
  by (induction ps arbitrary: res) simp_all

lemma parseStorePathSet_printStorePathSet:
  assumes "is_set paths"
    and "\<forall>p \<in> set paths. parseStorePath store (printStorePath store p) = Inr p"
  shows "parseStorePathSet store (printStorePathSet store paths) = Inr paths"
proof -
  define g where "g = (\<lambda>i. case parseStorePath store i of Inr p \<Rightarrow> p | Inl e \<Rightarrow> [])"
  let ?ps = "printStorePathSet store paths"
  have ok: "\<forall>i \<in> set ?ps. parseStorePath store i = Inr (g i)"
    using assms(2) by (auto simp: set_printStorePathSet g_def)
  have g: "\<forall>p \<in> set paths. g (printStorePath store p) = p"
    using assms(2) by (simp add: g_def)
  have "set (fold (\<lambda>i. set_insert (g i)) ?ps []) = set paths"
    using g by (auto simp: set_fold_set_insert set_printStorePathSet image_image)
  moreover have "is_set (fold (\<lambda>i. set_insert (g i)) ?ps [])"
    by (rule is_set_fold_set_insert) (simp add: is_set_def)
  ultimately have "fold (\<lambda>i. set_insert (g i)) ?ps [] = paths"
    using assms(1) by (intro is_set_eqI)
  then show ?thesis
    using parseStorePathSet_loop_fold [OF ok, of "[]"] by (simp add: parseStorePathSet_def)
qed

section \<open>Properties of the parser on printed text\<close>

lemma andThen_Some_Inr [simp]: "andThen (Some (Inr (x, rest))) f = f x rest"
  by (simp add: andThen_def)

lemma andThen_Some_Inl [simp]: "andThen (Some (Inl e)) f = Some (Inl e)"
  by (simp add: andThen_def)

lemma andThen_None [simp]: "andThen None f = None"
  by (simp add: andThen_def)

lemma liftError_Inr [simp]: "liftError (Inr x) rest = Some (Inr (x, rest))"
  by (simp add: liftError_def)

lemma liftError_Inl [simp]: "liftError (Inl e) rest = Some (Inl e)"
  by (simp add: liftError_def)

lemma expect1 [simp]: "expect [c] (c # rest) = Some (Inr ((), rest))"
  by (simp add: expect_def)

lemma expect2 [simp]: "expect [c, d] (c # d # rest) = Some (Inr ((), rest))"
  by (simp add: expect_def)

lemma unquotable_Nil [simp]: "unquotable []"
  by (simp add: unquotable_def)

lemma parseString_loop_dquote: "parseString_loop res (dquote # cs) = Some (Inr (res, cs))"
  by (subst parseString_loop.simps) simp

lemma parseString_loop_plain:
  "c \<noteq> dquote \<Longrightarrow> c \<noteq> backslash \<Longrightarrow> parseString_loop res (c # cs) = parseString_loop (res @ [c]) cs"
  by (subst parseString_loop.simps) simp

lemma parseString_loop_escape:
  "parseString_loop res (backslash # d # ds) =
     parseString_loop (res @ [if d = CHR ''n'' then newline else if d = CHR ''r'' then carriage_return
                              else if d = CHR ''t'' then tab else d]) ds"
  by (subst parseString_loop.simps) simp

lemma parseString_loop_unquoted:
  "unquotable s \<Longrightarrow> parseString_loop res (s @ dquote # rest) = Some (Inr (res @ s, rest))"
proof (induction s arbitrary: res)
  case Nil
  show ?case by (simp add: parseString_loop_dquote)
next
  case (Cons c s)
  then have "c \<noteq> dquote" "c \<noteq> backslash" "unquotable s"
    by (auto simp: unquotable_def)
  then show ?case
    using Cons.IH [of "res @ [c]"] by (simp add: parseString_loop_plain)
qed

lemma parseString_loop_escapeChar:
  "parseString_loop res (escapeChar c @ inp) = parseString_loop (res @ [c]) inp"
  by (simp add: escapeChar_def parseString_loop_escape parseString_loop_plain)

lemma parseString_loop_quoted:
  "parseString_loop res (concat (map escapeChar s) @ dquote # rest) = Some (Inr (res @ s, rest))"
proof (induction s arbitrary: res)
  case Nil
  show ?case by (simp add: parseString_loop_dquote)
next
  case (Cons c s)
  show ?case
    using Cons.IH [of "res @ [c]"] by (simp add: parseString_loop_escapeChar)
qed

lemma parseString_printString [simp]: "parseString (printString s @ rest) = Some (Inr (s, rest))"
  using parseString_loop_quoted [of "[]" s rest]
  by (simp add: parseString_def printString_def expect_def)

lemma parseString_printUnquotedString [simp]:
  "unquotable s \<Longrightarrow> parseString (printUnquotedString s @ rest) = Some (Inr (s, rest))"
  using parseString_loop_unquoted [of s "[]" rest]
  by (simp add: parseString_def printUnquotedString_def expect_def)

lemma parsePath_printUnquotedString [simp]:
  "unquotable s \<Longrightarrow> s \<noteq> [] \<Longrightarrow> hd s = CHR ''/'' \<Longrightarrow>
   parsePath (printUnquotedString s @ rest) = Some (Inr (s, rest))"
  by (simp add: parsePath_def)

lemma printUnquotedString_start [simp]:
  "printUnquotedString s \<noteq> []" "hd (printUnquotedString s) = dquote"
  by (simp_all add: printUnquotedString_def)

lemma printString_start [simp]:
  "printString s \<noteq> []" "hd (printString s) = dquote"
  by (simp_all add: printString_def)

lemma endOfList_comma [simp]: "endOfList (CHR '','' # cs) = (False, cs)"
  by (simp add: endOfList_def)

lemma endOfList_bracket [simp]: "endOfList (CHR '']'' # cs) = (True, cs)"
  by (simp add: endOfList_def)

lemma endOfList_other:
  "inp \<noteq> [] \<Longrightarrow> hd inp \<noteq> CHR '','' \<Longrightarrow> hd inp \<noteq> CHR '']'' \<Longrightarrow> endOfList inp = (False, inp)"
  by (cases inp) (simp_all add: endOfList_def)

text \<open>The loop over a printed list, after its first element and from its start.\<close>

lemma whileNotEndOfList_rest:
  assumes "\<And>x rest. x \<in> set xs \<Longrightarrow> body (pr x @ rest) = Some (Inr (g x, rest))"
  shows "whileNotEndOfList body upd acc (printSeparated False pr xs @ CHR '']'' # rest) =
         Some (Inr (fold upd (map g xs) acc, rest))"
  using assms
proof (induction xs arbitrary: acc)
  case Nil
  show ?case by (subst whileNotEndOfList.simps) simp
next
  case (Cons x xs)
  have "body (pr x @ printSeparated False pr xs @ CHR '']'' # rest) =
        Some (Inr (g x, printSeparated False pr xs @ CHR '']'' # rest))"
    using Cons.prems by simp
  moreover have "whileNotEndOfList body upd (upd (g x) acc) (printSeparated False pr xs @ CHR '']'' # rest) =
                 Some (Inr (fold upd (map g xs) (upd (g x) acc), rest))"
    using Cons.IH Cons.prems by simp
  ultimately show ?case
    by (subst whileNotEndOfList.simps) simp
qed

lemma whileNotEndOfList_printSeparated:
  assumes body: "\<And>x rest. x \<in> set xs \<Longrightarrow> body (pr x @ rest) = Some (Inr (g x, rest))"
    and start: "\<And>x. x \<in> set xs \<Longrightarrow> pr x \<noteq> [] \<and> hd (pr x) \<noteq> CHR '','' \<and> hd (pr x) \<noteq> CHR '']''"
  shows "whileNotEndOfList body upd acc (printSeparated True pr xs @ CHR '']'' # rest) =
         Some (Inr (fold upd (map g xs) acc, rest))"
proof (cases xs)
  case Nil
  then show ?thesis by (subst whileNotEndOfList.simps) simp
next
  case (Cons x xs')
  let ?tail = "printSeparated False pr xs' @ CHR '']'' # rest"
  have "endOfList (pr x @ ?tail) = (False, pr x @ ?tail)"
    using start [of x] Cons by (intro endOfList_other) simp_all
  moreover have "body (pr x @ ?tail) = Some (Inr (g x, ?tail))"
    using body [of x] Cons by simp
  moreover have "whileNotEndOfList body upd (upd (g x) acc) ?tail =
                 Some (Inr (fold upd (map g xs') (upd (g x) acc), rest))"
    using body Cons by (intro whileNotEndOfList_rest) simp
  ultimately show ?thesis
    using Cons by (subst whileNotEndOfList.simps) simp
qed

lemma parseStrings_False:
  assumes "is_set ss" "\<forall>s \<in> set ss. unquotable s"
  shows "parseStrings False (printSeparated True printUnquotedString ss @ CHR '']'' # rest) =
         Some (Inr (ss, rest))"
proof -
  have "whileNotEndOfList parseString set_insert []
          (printSeparated True printUnquotedString ss @ CHR '']'' # rest) =
        Some (Inr (fold set_insert (map (\<lambda>s. s) ss) [], rest))"
    using assms(2)
    by (intro whileNotEndOfList_printSeparated) simp_all
  then show ?thesis
    using assms(1) by (simp add: parseStrings_def fold_set_insert_is_set)
qed

lemma parseStrings_True:
  assumes "is_set ss" "\<forall>s \<in> set ss. unquotable s \<and> s \<noteq> [] \<and> hd s = CHR ''/''"
  shows "parseStrings True (printSeparated True printUnquotedString ss @ CHR '']'' # rest) =
         Some (Inr (ss, rest))"
proof -
  have "whileNotEndOfList parsePath set_insert []
          (printSeparated True printUnquotedString ss @ CHR '']'' # rest) =
        Some (Inr (fold set_insert (map (\<lambda>s. s) ss) [], rest))"
    using assms(2)
    by (intro whileNotEndOfList_printSeparated) simp_all
  then show ?thesis
    using assms(1) by (simp add: parseStrings_def fold_set_insert_is_set)
qed

lemma parseDerivationOutput_fixed:
  assumes "unquotable declared" "declared \<noteq> []" "hd declared = CHR ''/''"
    and "parseStorePath store declared = Inr p" and "printableHash store (hash h)"
  shows "parseDerivationOutput store
           (CHR '','' # printUnquotedString declared @
            CHR '','' # printUnquotedString (printMethodAlgo store h) @
            CHR '','' # printUnquotedString (to_string_Base16 store (hash h)) @
            CHR '')'' # rest) =
         Some (Inr (DerivationOutputFixed h, rest))"
proof -
  let ?algo = "printHashType store (type (hash h))"
  note p = assms(1-4)
  have a: "unquotable ?algo" "?algo \<noteq> []" "take 2 ?algo \<noteq> ''r:''"
    "parseHashType store ?algo = Inr (type (hash h))"
    "unquotable (to_string_Base16 store (hash h))"
    "newHash store (to_string_Base16 store (hash h)) (type (hash h)) = Inr (hash h)"
    using assms(5) by (simp_all add: printableHash_def)
  have ua: "unquotable (printMethodAlgo store h)"
    using a(1) by (cases "method h") (simp_all add: printMethodAlgo_def unquotable_def)
  show ?thesis
  proof (cases "method h")
    case Flat
    then have m: "printMethodAlgo store h = ?algo"
      by (simp add: printMethodAlgo_def)
    have "h = \<lparr>method = Flat, hash = hash h\<rparr>"
      using Flat by (cases h) simp
    then show ?thesis
      using p a ua unfolding parseDerivationOutput_def m
      by simp
  next
    case Recursive
    then have m: "printMethodAlgo store h = CHR ''r'' # CHR '':'' # ?algo"
      by (simp add: printMethodAlgo_def)
    have "h = \<lparr>method = Recursive, hash = hash h\<rparr>"
      using Recursive by (cases h) simp
    then show ?thesis
      using p a ua unfolding parseDerivationOutput_def m
      by simp
  qed
qed

lemma parseDerivationOutput_intensional:
  assumes "printablePath store p"
  shows "parseDerivationOutput store
           (CHR '','' # printUnquotedString (printStorePath store p) @
            CHR '','' # printUnquotedString [] @
            CHR '','' # printUnquotedString [] @
            CHR '')'' # rest) =
         Some (Inr (DerivationOutputIntensional p, rest))"
  using assms unfolding parseDerivationOutput_def
  by (simp add: printablePath_def)

lemma parseOutputEntry_printOutput:
  assumes "printableOutput store drvName i"
  shows "parseOutputEntry store (printOutput store drvName False i @ rest) = Some (Inr (i, rest))"
proof (cases "snd i")
  case (DerivationOutputIntensional p)
  then show ?thesis
    using assms parseDerivationOutput_intensional [of store p rest]
    by (cases i) (simp add: printableOutput_def parseOutputEntry_def printOutput_def)
next
  case (DerivationOutputFixed h)
  then show ?thesis
    using assms
      parseDerivationOutput_fixed
        [of "printStorePath store (makeFixedOutputPath store (method h) (hash h) drvName)" store
            "makeFixedOutputPath store (method h) (hash h) drvName" h rest]
    by (cases i) (simp add: printableOutput_def printablePath_def parseOutputEntry_def printOutput_def)
qed

lemma parseInputDrvEntry_printInput:
  assumes "printableInputDrv store i"
  shows "parseInputDrvEntry store (printInput (printStorePath store (fst i), snd i) @ rest) =
         Some (Inr (i, rest))"
  using assms
  by (cases i) (simp add: printableInputDrv_def printablePath_def printUnquotedStrings_def
      parseStrings_False parseInputDrvEntry_def printInput_def)

lemma parseEnvEntry_printEnvEntry:
  "parseEnvEntry (printEnvEntry drv False i @ rest) = Some (Inr (i, rest))"
  by (cases i) (simp add: parseEnvEntry_def printEnvEntry_def)

lemma fold_outputs:
  "fold (\<lambda>(outputId, output) drv. drv\<lparr>outputs := map_emplace outputId output (outputs drv)\<rparr>) m drv =
   drv\<lparr>outputs := fold (\<lambda>(k, v). map_emplace k v) m (outputs drv)\<rparr>"
  by (induction m arbitrary: drv) (simp_all add: split_def)

lemma fold_inputDrvs:
  "fold (\<lambda>(p, ids) drv. drv\<lparr>inputDrvs := map_insert_or_assign p ids (inputDrvs drv)\<rparr>) m drv =
   drv\<lparr>inputDrvs := fold (\<lambda>(k, v). map_insert_or_assign k v) m (inputDrvs drv)\<rparr>"
  by (induction m arbitrary: drv) (simp_all add: split_def)

lemma fold_env:
  "fold (\<lambda>(name, value) drv. drv\<lparr>env := map_insert_or_assign name value (env drv)\<rparr>) m drv =
   drv\<lparr>env := fold (\<lambda>(k, v). map_insert_or_assign k v) m (env drv)\<rparr>"
  by (induction m arbitrary: drv) (simp_all add: split_def)

lemma fold_args:
  "fold (\<lambda>a drv. drv\<lparr>args := args drv @ [a]\<rparr>) as drv = drv\<lparr>args := args drv @ as\<rparr>"
  by (induction as arbitrary: drv) simp_all

lemma parse_outputs:
  assumes "\<forall>i \<in> set outs. printableOutput store drvName i" "is_map outs" "outputs drv0 = []"
  shows "whileNotEndOfList (parseOutputEntry store)
           (\<lambda>(outputId, output) drv. drv\<lparr>outputs := map_emplace outputId output (outputs drv)\<rparr>)
           drv0
           (printSeparated True (printOutput store drvName False) outs @ CHR '']'' # rest) =
         Some (Inr (drv0\<lparr>outputs := outs\<rparr>, rest))"
proof -
  have "whileNotEndOfList (parseOutputEntry store)
           (\<lambda>(outputId, output) drv. drv\<lparr>outputs := map_emplace outputId output (outputs drv)\<rparr>)
           drv0
           (printSeparated True (printOutput store drvName False) outs @ CHR '']'' # rest) =
         Some (Inr (fold (\<lambda>(outputId, output) drv. drv\<lparr>outputs := map_emplace outputId output (outputs drv)\<rparr>)
                      (map (\<lambda>i. i) outs) drv0, rest))"
    using assms(1)
    by (intro whileNotEndOfList_printSeparated)
       (simp_all add: parseOutputEntry_printOutput, simp add: printOutput_def)
  then show ?thesis
    using assms(2,3) by (simp add: fold_outputs fold_map_emplace_is_map)
qed

lemma parse_inputDrvs:
  assumes "\<forall>i \<in> set ins. printableInputDrv store i" "is_map ins" "inputDrvs drv0 = []"
  shows "whileNotEndOfList (parseInputDrvEntry store)
           (\<lambda>(p, ids) drv. drv\<lparr>inputDrvs := map_insert_or_assign p ids (inputDrvs drv)\<rparr>)
           drv0
           (printSeparated True (\<lambda>i. printInput (printStorePath store (fst i), snd i)) ins @
            CHR '']'' # rest) =
         Some (Inr (drv0\<lparr>inputDrvs := ins\<rparr>, rest))"
proof -
  have "whileNotEndOfList (parseInputDrvEntry store)
           (\<lambda>(p, ids) drv. drv\<lparr>inputDrvs := map_insert_or_assign p ids (inputDrvs drv)\<rparr>)
           drv0
           (printSeparated True (\<lambda>i. printInput (printStorePath store (fst i), snd i)) ins @
            CHR '']'' # rest) =
         Some (Inr (fold (\<lambda>(p, ids) drv. drv\<lparr>inputDrvs := map_insert_or_assign p ids (inputDrvs drv)\<rparr>)
                      (map (\<lambda>i. i) ins) drv0, rest))"
    using assms(1)
    by (intro whileNotEndOfList_printSeparated)
       (simp_all add: parseInputDrvEntry_printInput, simp add: printInput_def)
  then show ?thesis
    using assms(2,3) by (simp add: fold_inputDrvs fold_map_insert_or_assign_is_map)
qed

lemma parse_env:
  assumes "is_map e" "env drv0 = []"
  shows "whileNotEndOfList parseEnvEntry
           (\<lambda>(name, value) drv. drv\<lparr>env := map_insert_or_assign name value (env drv)\<rparr>)
           drv0
           (printSeparated True (printEnvEntry drv False) e @ CHR '']'' # rest) =
         Some (Inr (drv0\<lparr>env := e\<rparr>, rest))"
proof -
  have "whileNotEndOfList parseEnvEntry
           (\<lambda>(name, value) drv. drv\<lparr>env := map_insert_or_assign name value (env drv)\<rparr>)
           drv0
           (printSeparated True (printEnvEntry drv False) e @ CHR '']'' # rest) =
         Some (Inr (fold (\<lambda>(name, value) drv. drv\<lparr>env := map_insert_or_assign name value (env drv)\<rparr>)
                      (map (\<lambda>i. i) e) drv0, rest))"
    by (intro whileNotEndOfList_printSeparated)
       (simp_all add: parseEnvEntry_printEnvEntry, simp add: printEnvEntry_def)
  then show ?thesis
    using assms by (simp add: fold_env fold_map_insert_or_assign_is_map)
qed

lemma parse_args:
  assumes "args drv0 = []"
  shows "whileNotEndOfList parseString (\<lambda>a drv. drv\<lparr>args := args drv @ [a]\<rparr>) drv0
           (printSeparated True printString as @ CHR '']'' # rest) =
         Some (Inr (drv0\<lparr>args := as\<rparr>, rest))"
proof -
  have "whileNotEndOfList parseString (\<lambda>a drv. drv\<lparr>args := args drv @ [a]\<rparr>) drv0
           (printSeparated True printString as @ CHR '']'' # rest) =
         Some (Inr (fold (\<lambda>a drv. drv\<lparr>args := args drv @ [a]\<rparr>) (map (\<lambda>i. i) as) drv0, rest))"
    by (intro whileNotEndOfList_printSeparated) simp_all
  then show ?thesis
    using assms by (simp add: fold_args)
qed

lemma parse_inputSrcs:
  assumes "is_set srcs" "\<forall>p \<in> set srcs. printablePath store p"
  shows "parseStrings True
           (printSeparated True printUnquotedString (printStorePathSet store srcs) @ CHR '']'' # rest) =
         Some (Inr (printStorePathSet store srcs, rest))"
    and "parseStorePathSet store (printStorePathSet store srcs) = Inr srcs"
proof -
  show "parseStrings True
           (printSeparated True printUnquotedString (printStorePathSet store srcs) @ CHR '']'' # rest) =
         Some (Inr (printStorePathSet store srcs, rest))"
    using assms(2)
    by (intro parseStrings_True is_set_printStorePathSet)
       (auto simp: set_printStorePathSet printablePath_def)
  show "parseStorePathSet store (printStorePathSet store srcs) = Inr srcs"
    using assms by (intro parseStorePathSet_printStorePathSet) (simp_all add: printablePath_def)
qed


text \<open>
  An output with a non-empty \<open>hashAlgo\<close> parses to the method and the hash, whatever
  store path the text declares for it.
\<close>

lemma parseOutputEntry_declared_path_discarded:
  assumes "unquotable declared" "declared \<noteq> []" "hd declared = CHR ''/''"
    and "parseStorePath store declared = Inr p"
    and "unquotable outputId" and "printableHash store (hash h)"
  shows "parseOutputEntry store
           (''('' @ printUnquotedString outputId @ '','' @ printUnquotedString declared @
            '','' @ printUnquotedString (printMethodAlgo store h) @
            '','' @ printUnquotedString (to_string_Base16 store (hash h)) @ '')'' @ rest) =
         Some (Inr ((outputId, DerivationOutputFixed h), rest))"
  using assms(5) parseDerivationOutput_fixed [OF assms(1-4,6), of rest]
  by (simp add: parseOutputEntry_def)

section \<open>Properties of \<open>hashDerivationModulo\<close>\<close>
























section \<open>Properties of the binary cache store\<close>

lemma getFile_sink_files:
  "getFile_sink st key = (case files st key of None \<Rightarrow> Inl (NoSuchBinaryCacheFile key) | Some d \<Rightarrow> Inr d)"
  by (simp add: getFile_sink_def)

lemma getFile_files:
  "getFile st key = Inr (files st key)"
  by (simp add: getFile_def getFile_sink_def split: option.splits)

lemma lookupCaches_populateCaches:
  "lookupCaches (populateCaches st k n) k' = (if k' = k then Some (Some n) else lookupCaches st k')"
  by (simp add: lookupCaches_def populateCaches_def Let_def split: option.splits)

lemma files_populateCaches [simp]: "files (populateCaches st k n) = files st"
  by (simp add: populateCaches_def Let_def split: option.splits)

lemma stats_populateCaches [simp]: "stats (populateCaches st k n) = stats st"
  by (simp add: populateCaches_def Let_def split: option.splits)

lemma lookupCaches_stats_update [simp]: "lookupCaches (st\<lparr>stats := s\<rparr>) k = lookupCaches st k"
  by (simp add: lookupCaches_def split: option.splits)

text \<open>What a query returns, and the state it leaves, by what the caches and the backend hold.\<close>

lemma fst_queryPathInfo:
  "fst (queryPathInfo cfg st r) =
     (case lookupCaches st (hashPart r) of
        Some (Some n) \<Rightarrow> Inr n
      | Some None \<Rightarrow> Inl (InvalidPath (printStorePath (baseStore cfg) r))
      | None \<Rightarrow>
          (case files st (narInfoFileFor r) of
             None \<Rightarrow> Inl (InvalidPath (printStorePath (baseStore cfg) r))
           | Some data \<Rightarrow>
               (case parseNarInfo cfg data (narInfoFileFor r) of
                  Inl e \<Rightarrow> Inl e
                | Inr n \<Rightarrow> Inr n)))"
  by (simp add: queryPathInfo_def queryPathInfoUncached_def getFile_callback_def getFile_files
      Let_def split: option.splits sum.splits)

lemma snd_queryPathInfo:
  "snd (queryPathInfo cfg st r) =
     (case lookupCaches st (hashPart r) of
        Some v \<Rightarrow> st
      | None \<Rightarrow>
          (case files st (narInfoFileFor r) of
             None \<Rightarrow> st
           | Some data \<Rightarrow>
               (case parseNarInfo cfg data (narInfoFileFor r) of
                  Inl e \<Rightarrow> st\<lparr>stats := (stats st)\<lparr>narInfoRead := narInfoRead (stats st) + 1\<rparr>\<rparr>
                | Inr n \<Rightarrow>
                    populateCaches
                      (st\<lparr>stats := (stats st)\<lparr>narInfoRead := narInfoRead (stats st) + 1\<rparr>\<rparr>)
                      (hashPart r) n)))"
  by (simp add: queryPathInfo_def queryPathInfoUncached_def getFile_callback_def getFile_files
      Let_def split: option.splits sum.splits)

lemma files_queryPathInfo [simp]: "files (snd (queryPathInfo cfg st r)) = files st"
  by (simp add: snd_queryPathInfo split: option.splits sum.splits)

lemma narInfoFileFor_hashPart: "hashPart r = hashPart p \<Longrightarrow> narInfoFileFor r = narInfoFileFor p"
  by (simp add: narInfoFileFor_def)

text \<open>A query does not change what a later query returns.\<close>

lemma queryPathInfo_cases:
  obtains (hit) v where "lookupCaches st (hashPart p) = Some v"
      "snd (queryPathInfo cfg st p) = st"
      "fst (queryPathInfo cfg st p) =
         (case v of Some n \<Rightarrow> Inr n | None \<Rightarrow> Inl (InvalidPath (printStorePath (baseStore cfg) p)))"
    | (missing) "lookupCaches st (hashPart p) = None" "files st (narInfoFileFor p) = None"
      "snd (queryPathInfo cfg st p) = st"
      "fst (queryPathInfo cfg st p) = Inl (InvalidPath (printStorePath (baseStore cfg) p))"
    | (bad) data e where "lookupCaches st (hashPart p) = None"
      "files st (narInfoFileFor p) = Some data" "parseNarInfo cfg data (narInfoFileFor p) = Inl e"
      "snd (queryPathInfo cfg st p) =
         st\<lparr>stats := (stats st)\<lparr>narInfoRead := narInfoRead (stats st) + 1\<rparr>\<rparr>"
      "fst (queryPathInfo cfg st p) = Inl e"
    | (fetched) data n where "lookupCaches st (hashPart p) = None"
      "files st (narInfoFileFor p) = Some data" "parseNarInfo cfg data (narInfoFileFor p) = Inr n"
      "snd (queryPathInfo cfg st p) =
         populateCaches (st\<lparr>stats := (stats st)\<lparr>narInfoRead := narInfoRead (stats st) + 1\<rparr>\<rparr>)
           (hashPart p) n"
      "fst (queryPathInfo cfg st p) = Inr n"
proof (cases "lookupCaches st (hashPart p)")
  case (Some v)
  then show ?thesis
    by (intro hit [of v]) (simp_all add: snd_queryPathInfo fst_queryPathInfo split: option.splits)
next
  case None
  show ?thesis
  proof (cases "files st (narInfoFileFor p)")
    case fNone: None
    show ?thesis
      using None fNone by (intro missing) (simp_all add: snd_queryPathInfo fst_queryPathInfo)
  next
    case (Some data)
    show ?thesis
    proof (cases "parseNarInfo cfg data (narInfoFileFor p)")
      case (Inl e)
      show ?thesis
        using None Some Inl by (intro bad [of data e]) (simp_all add: snd_queryPathInfo fst_queryPathInfo)
    next
      case (Inr n)
      show ?thesis
        using None Some Inr
        by (intro fetched [of data n]) (simp_all add: snd_queryPathInfo fst_queryPathInfo)
    qed
  qed
qed

lemma fst_queryPathInfo_queryPathInfo:
  "fst (queryPathInfo cfg (snd (queryPathInfo cfg st p)) r) = fst (queryPathInfo cfg st r)"
proof (cases rule: queryPathInfo_cases [of st p cfg])
  case (hit v)
  then show ?thesis by simp
next
  case missing
  then show ?thesis by simp
next
  case (bad data e)
  then show ?thesis
    by (simp add: fst_queryPathInfo [of cfg _ r] split: option.splits)
next
  case (fetched data n)
  show ?thesis
  proof (cases "hashPart r = hashPart p")
    case True
    then have "narInfoFileFor r = narInfoFileFor p"
      by (rule narInfoFileFor_hashPart)
    then show ?thesis
      using fetched True
      by (simp add: fst_queryPathInfo [of cfg _ r] lookupCaches_populateCaches)
  next
    case False
    then show ?thesis
      using fetched
      by (simp add: fst_queryPathInfo [of cfg _ r] lookupCaches_populateCaches split: option.splits)
  qed
qed

lemma queryPathInfo_collapse:
  "queryPathInfo cfg st r = (fst (queryPathInfo cfg st r), snd (queryPathInfo cfg st r))"
  by simp

text \<open>The loop over the references writes nothing to the backend.\<close>

lemma files_verifyReferences [simp]: "files (snd (verifyReferences cfg st info refs)) = files st"
proof (induction refs arbitrary: st)
  case Nil
  show ?case by simp
next
  case (Cons r refs)
  show ?case
  proof (cases "r = infoPath info")
    case True
    then show ?thesis using Cons.IH by simp
  next
    case False
    have f: "files (snd (queryPathInfo cfg st r)) = files st" by simp
    show ?thesis
    proof (cases "fst (queryPathInfo cfg st r)")
      case (Inl e)
      then show ?thesis
        using False f
        by (subst verifyReferences.simps, subst queryPathInfo_collapse) (simp split: error.splits)
    next
      case (Inr n)
      then show ?thesis
        using False f Cons.IH [of "snd (queryPathInfo cfg st r)"]
        by (subst verifyReferences.simps, subst queryPathInfo_collapse) simp
    qed
  qed
qed

text \<open>
  The loop stops at the first reference whose query raises \<open>InvalidPath\<close>, when the
  queries of the references before it succeed; it passes when all succeed.
\<close>

lemma verifyReferences_invalid:
  assumes "\<forall>r. fst (queryPathInfo cfg st r) = fst (queryPathInfo cfg st0 r)"
    and "\<forall>r \<in> set before. r = infoPath info \<or> (\<exists>n. fst (queryPathInfo cfg st0 r) = Inr n)"
    and "ref \<noteq> infoPath info"
    and "fst (queryPathInfo cfg st0 ref) = Inl (InvalidPath m)"
  shows "fst (verifyReferences cfg st info (before @ ref # after)) =
         Some (Error ''cannot add to the binary cache because the reference is not valid''
                 [printStorePath (baseStore cfg) (infoPath info), printStorePath (baseStore cfg) ref])"
  using assms(1,2)
proof (induction before arbitrary: st)
  case Nil
  have "fst (queryPathInfo cfg st ref) = Inl (InvalidPath m)"
    using Nil.prems(1) assms(4) by simp
  then show ?case
    using assms(3) by (simp, subst queryPathInfo_collapse) simp
next
  case (Cons r before)
  show ?case
  proof (cases "r = infoPath info")
    case True
    then show ?thesis using Cons by simp
  next
    case False
    then obtain n where n: "fst (queryPathInfo cfg st r) = Inr n"
      using Cons.prems by auto
    have "\<forall>r'. fst (queryPathInfo cfg (snd (queryPathInfo cfg st r)) r') = fst (queryPathInfo cfg st0 r')"
      using Cons.prems(1) by (simp add: fst_queryPathInfo_queryPathInfo)
    then have "fst (verifyReferences cfg (snd (queryPathInfo cfg st r)) info (before @ ref # after)) =
         Some (Error ''cannot add to the binary cache because the reference is not valid''
                 [printStorePath (baseStore cfg) (infoPath info), printStorePath (baseStore cfg) ref])"
      using Cons.prems(2) by (intro Cons.IH) simp_all
    then show ?thesis
      using False n by (simp, subst queryPathInfo_collapse) simp
  qed
qed

lemma verifyReferences_valid:
  assumes "\<forall>r. fst (queryPathInfo cfg st r) = fst (queryPathInfo cfg st0 r)"
    and "\<forall>r \<in> set refs. r = infoPath info \<or> (\<exists>n. fst (queryPathInfo cfg st0 r) = Inr n)"
  shows "fst (verifyReferences cfg st info refs) = None"
  using assms
proof (induction refs arbitrary: st)
  case Nil
  show ?case by simp
next
  case (Cons r refs)
  show ?case
  proof (cases "r = infoPath info")
    case True
    then show ?thesis using Cons by simp
  next
    case False
    then obtain n where n: "fst (queryPathInfo cfg st r) = Inr n"
      using Cons.prems by auto
    have "\<forall>r'. fst (queryPathInfo cfg (snd (queryPathInfo cfg st r)) r') = fst (queryPathInfo cfg st0 r')"
      using Cons.prems(1) by (simp add: fst_queryPathInfo_queryPathInfo)
    then have "fst (verifyReferences cfg (snd (queryPathInfo cfg st r)) info refs) = None"
      using Cons.prems(2) by (intro Cons.IH) simp_all
    then show ?thesis
      using False n by (simp, subst queryPathInfo_collapse) simp
  qed
qed

lemma verifyReferences_collapse:
  "verifyReferences cfg st info refs =
     (fst (verifyReferences cfg st info refs), snd (verifyReferences cfg st info refs))"
  by simp

text \<open>\<open>addToStore\<close>, by the outcome of its checks.\<close>

lemma addToStore_skip:
  "\<not> repair \<Longrightarrow> isValidPath' st (infoPath info) \<Longrightarrow> addToStore cfg st info nar repair = (Inr (), st)"
  by (simp add: addToStore_def)

lemma addToStore_bad_reference:
  assumes "repair \<or> \<not> isValidPath' st (infoPath info)"
    and "fst (verifyReferences cfg st info (references info)) = Some e"
  shows "addToStore cfg st info nar repair = (Inl e, snd (verifyReferences cfg st info (references info)))"
  using assms
  by (subst addToStore_def, subst verifyReferences_collapse) auto

lemma addToStore_bad_magic:
  assumes "repair \<or> \<not> isValidPath' st (infoPath info)"
    and "fst (verifyReferences cfg st info (references info)) = None"
    and "take (length (narMagic cfg)) nar \<noteq> narMagic cfg"
  shows "addToStore cfg st info nar repair =
           (Inl (AssertionFailure ''nar->compare(0, narMagic.size(), narMagic) == 0''),
            snd (verifyReferences cfg st info (references info)))"
  using assms
  by (subst addToStore_def, subst verifyReferences_collapse) auto

lemma addToStore_bad_hash:
  assumes "repair \<or> \<not> isValidPath' st (infoPath info)"
    and "fst (verifyReferences cfg st info (references info)) = None"
    and "take (length (narMagic cfg)) nar = narMagic cfg"
    and "narHash info = Some h" and "h \<noteq> hashString (baseStore cfg) htSHA256 nar"
  shows "addToStore cfg st info nar repair =
           (Inl (Error ''refusing to copy corrupted path to binary cache''
                   [printStorePath (baseStore cfg) (infoPath info)]),
            snd (verifyReferences cfg st info (references info)))"
  using assms
  by (subst addToStore_def, subst verifyReferences_collapse) (auto simp: Let_def)

lemma addToStore_storeNar:
  assumes "repair \<or> \<not> isValidPath' st (infoPath info)"
    and "fst (verifyReferences cfg st info (references info)) = None"
    and "take (length (narMagic cfg)) nar = narMagic cfg"
    and "narHash info = None \<or> narHash info = Some (hashString (baseStore cfg) htSHA256 nar)"
  shows "addToStore cfg st info nar repair =
           storeNar cfg (snd (verifyReferences cfg st info (references info))) info
             ((newNarInfo info)\<lparr>narSize := length nar,
                                 narHash := Some (hashString (baseStore cfg) htSHA256 nar)\<rparr>)
             nar repair"
  using assms
  by (subst addToStore_def, subst verifyReferences_collapse) (auto simp: Let_def)

text \<open>After \<open>writeNarInfo\<close> the caches know the path; so they do after \<open>storeNar\<close>.\<close>

lemma lookupCaches_writeNarInfo:
  "lookupCaches (writeNarInfo cfg st n) (hashPart (infoPath n)) = Some (Some n)"
  by (simp add: writeNarInfo_def lookupCaches_def upsertFile_def Let_def split: option.splits)

lemma files_writeNarInfo:
  "files (writeNarInfo cfg st n) = (files st)(narInfoFileFor (infoPath n) \<mapsto> narInfoToString cfg n)"
  by (simp add: writeNarInfo_def upsertFile_def Let_def split: option.splits)

lemma stats_writeNarInfo [simp]: "stats (writeNarInfo cfg st n) = stats st"
  by (simp add: writeNarInfo_def upsertFile_def Let_def split: option.splits)

lemma isValidPath'_lookupCaches:
  "lookupCaches st (hashPart p) = Some (Some n) \<Longrightarrow> isValidPath' st p"
  by (simp add: isValidPath'_def)

lemma infoPath_compressedNarInfo [simp]: "infoPath (compressedNarInfo cfg n c) = infoPath n"
  by (simp add: compressedNarInfo_def)

lemma infoPath_signNarInfo [simp]: "infoPath (signNarInfo cfg n) = infoPath n"
  by (simp add: signNarInfo_def split: option.splits)

lemma isValidPath'_storeNar:
  assumes "storeNar cfg st info narInfo nar repair = (Inr (), st1)"
  shows "isValidPath' st1 (infoPath narInfo)"
proof (cases "makeNarAccessor cfg nar")
  case (Inl e)
  then show ?thesis using assms by (simp add: storeNar_def)
next
  case (Inr narAccessor)
  show ?thesis
  proof (cases "compress cfg (compressionMethod cfg) nar")
    case (Inl e)
    then show ?thesis using assms Inr by (simp add: storeNar_def Let_def)
  next
    case compressed: (Inr narCompressed)
    let ?n = "signNarInfo cfg (compressedNarInfo cfg narInfo narCompressed)"
    obtain st' s where "st1 = (writeNarInfo cfg st' ?n)\<lparr>stats := s\<rparr>"
      using assms Inr compressed by (auto simp: storeNar_def Let_def)
    then have "lookupCaches st1 (hashPart (infoPath ?n)) = Some (Some ?n)"
      using lookupCaches_writeNarInfo [of cfg st' ?n] by simp
    then show ?thesis
      using isValidPath'_lookupCaches [of st1 "infoPath narInfo" ?n] by simp
  qed
qed

section \<open>The derivation codec\<close>

text \<open>
  C1, as stated: parsing \<open>unparse(d)\<close> under \<open>d\<close>'s name yields \<open>d\<close>, for every derivation.
  It fails where \<open>unparse\<close> writes a field with \<open>printUnquotedString\<close>: the platform
  \<open>x86_64\linux\<close> is written as it is, and the parser reads the backslash as an escape,
  so the text parses to a derivation whose platform is \<open>x86_64linux\<close>.
\<close>

theorem unparse_backslash_platform_counterexample:
  "parseDerivation (exampleStore []) (unparse (exampleStore []) backslashDrv False None)
     (name backslashDrv) =
   Some (Inr (backslashDrv\<lparr>platform := ''x86_64linux''\<rparr>, [])) \<and>
   backslashDrv\<lparr>platform := ''x86_64linux''\<rparr> \<noteq> backslashDrv"
  by code_simp

text \<open>
  C1, amended: for every derivation whose output names, platform and input-derivation
  output names have no quote and no backslash, whose maps and sets are in canonical
  order, and whose store paths and hashes the store prints without quote or backslash
  and parses back (\<open>printableDerivation\<close>), parsing \<open>unparse(d)\<close> (with
  \<open>maskOutputs = false\<close> and no \<open>actualInputs\<close>) under \<open>d\<close>'s name returns \<open>d\<close> and leaves
  nothing in the stream.
\<close>

theorem parseDerivation_unparse:
  assumes "printableDerivation store drv"
  shows "parseDerivation store (unparse store drv False None) (name drv) = Some (Inr (drv, []))"
proof -
  have outs: "\<forall>i \<in> set (outputs drv). printableOutput store (name drv) i" "is_map (outputs drv)"
    and ins: "\<forall>i \<in> set (inputDrvs drv). printableInputDrv store i" "is_map (inputDrvs drv)"
    and srcs: "is_set (inputSrcs drv)" "\<forall>p \<in> set (inputSrcs drv). printablePath store p"
    and e: "is_map (env drv)" and pl: "unquotable (platform drv)"
    using assms by (simp_all add: printableDerivation_def)
  note steps = parse_outputs [OF outs] parse_inputDrvs [OF ins] parse_inputSrcs [OF srcs]
    parse_env [OF e] parse_args
  show ?thesis
    unfolding parseDerivation_def unparse_def Let_def
    by (simp add: steps pl emptyDerivation_def expect_def printUnquotedStrings_def printStrings_def)
qed

theorem parseDerivation_unparse_witness:
  "printableDerivation (exampleStore []) exampleDrv \<and>
   parseDerivation (exampleStore []) (unparse (exampleStore []) exampleDrv False None) ''hi'' =
     Some (Inr (exampleDrv, []))"
proof -
  have p: "printableDerivation (exampleStore []) exampleDrv"
    by code_simp
  show ?thesis
    using p parseDerivation_unparse [OF p] by (simp add: exampleDrv_def)
qed

text \<open>
  C10: the claim holds of the parser, of \<open>unparse\<close> and of \<open>hashDerivationModulo\<close>, and
  \<open>findOutput\<close> breaks it. The text \<open>inconsistentText\<close> declares \<open>/nix/store/zzz-other\<close>
  for a fixed output whose path, computed from method, hash and name, is
  \<open>/nix/store/flat-abc-hi\<close>. It parses to \<open>inconsistentDrv\<close>, which holds the method and
  the hash only; \<open>DerivationOutput::path\<close> gives the computed path, \<open>unparse\<close> writes the
  text with the computed path, and \<open>hashDerivationModulo\<close> hashes the computed path.
  \<open>findOutput\<close> computes the same path and returns a reference to the temporary that
  held it: its caller has a dangling reference, and no path.
\<close>

theorem findOutput_dangling_reference:
  "parseDerivation (exampleStore []) inconsistentText ''hi'' = Some (Inr (inconsistentDrv, [])) \<and>
   path (exampleStore []) (name inconsistentDrv)
     (DerivationOutputFixed \<lparr>method = Flat, hash = \<lparr>type = htSHA256, digest = ''abc''\<rparr>\<rparr>) =
     ''flat-abc-hi'' \<and>
   unparse (exampleStore []) inconsistentDrv False None = recomputedText \<and>
   hashOf (hashDerivationModulo 1 (exampleStore []) Map.empty inconsistentDrv False) =
     Some \<lparr>type = htSHA256, digest = ''fixed:out:sha256:abc:/nix/store/flat-abc-hi''\<rparr> \<and>
   findOutput (exampleStore []) inconsistentDrv ''out'' = Inr DanglingReference \<and>
   findOutput (exampleStore []) inconsistentDrv ''out'' \<noteq> Inr (Reference ''flat-abc-hi'')"
  by code_simp

section \<open>\<open>hashDerivationModulo\<close> and the specification\<close>







section \<open>The binary cache store: ingestion\<close>

text \<open>
  C4, as stated: a call of \<open>addToStore\<close> with a reference that is not valid fails. It
  does not when the path itself is already valid and \<open>repair\<close> is off: the call returns
  before it looks at the references. Here \<open>hello\<close> is in the cache, \<open>bogus\<close> is not, and
  adding \<open>hello\<close> with a reference to \<open>bogus\<close> returns without an error.
\<close>

theorem addToStore_skip_ignores_references_counterexample:
  "fst (queryPathInfo (exampleConfig []) helloCache bogusPath) =
     Inl (InvalidPath ''/nix/store/zyxwvsrqpnmlkjihgfdcba9876543210-bogus'') \<and>
   bogusPath \<noteq> helloPath \<and>
   fst (addToStore (exampleConfig []) helloCache (helloInfo\<lparr>references := [bogusPath]\<rparr>)
          helloNar False) = Inr ()"
  by code_simp

text \<open>
  C4, amended: for every call of \<open>addToStore\<close> that does not return at once (\<open>repair\<close> is
  on, or \<open>info.path\<close> is not valid), in which the query of a reference other than
  \<open>info.path\<close> raises \<open>InvalidPath\<close> and the queries of the references before it succeed,
  the call fails with the \<open>Error\<close> that names \<open>info.path\<close> and that reference, and the
  files of the backend are what they were.
\<close>

theorem addToStore_invalid_reference:
  assumes "repair \<or> \<not> isValidPath' st (infoPath info)"
    and "references info = before @ ref # after"
    and "\<forall>r \<in> set before. r = infoPath info \<or> (\<exists>n. fst (queryPathInfo cfg st r) = Inr n)"
    and "ref \<noteq> infoPath info"
    and "fst (queryPathInfo cfg st ref) = Inl (InvalidPath m)"
  shows "\<exists>st'. addToStore cfg st info nar repair =
                 (Inl (Error ''cannot add to the binary cache because the reference is not valid''
                         [printStorePath (baseStore cfg) (infoPath info),
                          printStorePath (baseStore cfg) ref]), st') \<and>
               files st' = files st"
proof -
  have "fst (verifyReferences cfg st info (references info)) =
          Some (Error ''cannot add to the binary cache because the reference is not valid''
                  [printStorePath (baseStore cfg) (infoPath info), printStorePath (baseStore cfg) ref])"
    unfolding assms(2) using assms(3-5) by (intro verifyReferences_invalid [where ?st0.0 = st]) simp_all
  then show ?thesis
    using addToStore_bad_reference [OF assms(1), of cfg _ nar] by simp
qed

theorem addToStore_invalid_reference_witness:
  "\<exists>st'. addToStore (exampleConfig []) emptyCache (helloInfo\<lparr>references := [bogusPath]\<rparr>)
            helloNar False =
            (Inl (Error ''cannot add to the binary cache because the reference is not valid''
                    [''/nix/store/0123456789abcdfghijklmnpqrsvwxyz-hello'',
                     ''/nix/store/zyxwvsrqpnmlkjihgfdcba9876543210-bogus'']), st') \<and>
          files st' = files emptyCache"
proof -
  let ?info = "helloInfo\<lparr>references := [bogusPath]\<rparr>"
  have 1: "False \<or> \<not> isValidPath' emptyCache (infoPath ?info)"
    and 2: "references ?info = [] @ bogusPath # []"
    and 3: "bogusPath \<noteq> infoPath ?info"
    and 4: "fst (queryPathInfo (exampleConfig []) emptyCache bogusPath) =
              Inl (InvalidPath ''/nix/store/zyxwvsrqpnmlkjihgfdcba9876543210-bogus'')"
    and 5: "printStorePath (baseStore (exampleConfig [])) (infoPath ?info) =
              ''/nix/store/0123456789abcdfghijklmnpqrsvwxyz-hello''"
    and 6: "printStorePath (baseStore (exampleConfig [])) bogusPath =
              ''/nix/store/zyxwvsrqpnmlkjihgfdcba9876543210-bogus''"
    by code_simp+
  show ?thesis
    using addToStore_invalid_reference [OF 1 2 _ 3 4, of helloNar] 5 6 by simp
qed

text \<open>
  C5: when a call of \<open>addToStore\<close> reaches the hash check (\<open>repair\<close> is on or the path is
  not valid, the query of every reference other than the path succeeds, the NAR starts
  with the magic), and \<open>info.narHash\<close> is set and is not the SHA-256 of the NAR, the
  call fails with "refusing to copy corrupted path" and the files of the backend are
  what they were.
\<close>

theorem addToStore_corrupt_nar:
  assumes "repair \<or> \<not> isValidPath' st (infoPath info)"
    and "\<forall>r \<in> set (references info). r = infoPath info \<or> (\<exists>n. fst (queryPathInfo cfg st r) = Inr n)"
    and "take (length (narMagic cfg)) nar = narMagic cfg"
    and "narHash info = Some h" and "h \<noteq> hashString (baseStore cfg) htSHA256 nar"
  shows "\<exists>st'. addToStore cfg st info nar repair =
                 (Inl (Error ''refusing to copy corrupted path to binary cache''
                         [printStorePath (baseStore cfg) (infoPath info)]), st') \<and>
               files st' = files st"
proof -
  have "fst (verifyReferences cfg st info (references info)) = None"
    using assms(2) by (intro verifyReferences_valid [where ?st0.0 = st]) simp_all
  then show ?thesis
    using addToStore_bad_hash [OF assms(1) _ assms(3-5)] by simp
qed

theorem addToStore_corrupt_nar_witness:
  "\<exists>st'. addToStore (exampleConfig []) emptyCache
            (helloInfo\<lparr>narHash := Some \<lparr>type = htSHA256, digest = ''something else''\<rparr>\<rparr>)
            helloNar False =
            (Inl (Error ''refusing to copy corrupted path to binary cache''
                    [''/nix/store/0123456789abcdfghijklmnpqrsvwxyz-hello'']), st') \<and>
          files st' = files emptyCache"
proof -
  let ?h = "\<lparr>type = htSHA256, digest = ''something else''\<rparr>"
  let ?info = "helloInfo\<lparr>narHash := Some ?h\<rparr>"
  have 2: "\<forall>r \<in> set (references ?info). r = infoPath ?info \<or>
              (\<exists>n. fst (queryPathInfo (exampleConfig []) emptyCache r) = Inr n)"
    by (simp add: helloInfo_def)
  have 1: "False \<or> \<not> isValidPath' emptyCache (infoPath ?info)"
    and 3: "take (length (narMagic (exampleConfig []))) helloNar = narMagic (exampleConfig [])"
    and 4: "narHash ?info = Some ?h"
    and 5: "?h \<noteq> hashString (baseStore (exampleConfig [])) htSHA256 helloNar"
    and 6: "printStorePath (baseStore (exampleConfig [])) (infoPath ?info) =
              ''/nix/store/0123456789abcdfghijklmnpqrsvwxyz-hello''"
    by code_simp+
  show ?thesis
    using addToStore_corrupt_nar [OF 1 2 3 4 5] 6 by simp
qed

text \<open>
  C7, as stated: a call of \<open>addToStore\<close> whose NAR does not start with the magic is
  rejected. It is not when the path is already valid and \<open>repair\<close> is off: the call
  returns, without an error, before it looks at the NAR.
\<close>

theorem addToStore_skip_ignores_magic_counterexample:
  "take (length (narMagic (exampleConfig []))) ''not an archive'' \<noteq> narMagic (exampleConfig []) \<and>
   fst (addToStore (exampleConfig []) helloCache helloInfo ''not an archive'' False) = Inr ()"
  by code_simp

text \<open>
  C7, amended: for every call of \<open>addToStore\<close> whose NAR does not start with \<open>narMagic\<close>,
  the files of the backend are what they were; when the call does not return at once
  (\<open>repair\<close> is on, or the path is not valid) it fails, and it fails at the assertion on
  the magic when the queries of the references succeed.
\<close>

theorem addToStore_bad_magic_rejected:
  assumes "take (length (narMagic cfg)) nar \<noteq> narMagic cfg"
  shows "files (snd (addToStore cfg st info nar repair)) = files st \<and>
         (repair \<or> \<not> isValidPath' st (infoPath info) \<longrightarrow>
            (\<exists>e. fst (addToStore cfg st info nar repair) = Inl e)) \<and>
         ((repair \<or> \<not> isValidPath' st (infoPath info)) \<and>
          (\<forall>r \<in> set (references info).
             r = infoPath info \<or> (\<exists>n. fst (queryPathInfo cfg st r) = Inr n)) \<longrightarrow>
            fst (addToStore cfg st info nar repair) =
              Inl (AssertionFailure ''nar->compare(0, narMagic.size(), narMagic) == 0''))"
proof (cases "repair \<or> \<not> isValidPath' st (infoPath info)")
  case False
  then show ?thesis by (simp add: addToStore_skip)
next
  case True
  show ?thesis
  proof (cases "fst (verifyReferences cfg st info (references info))")
    case None
    show ?thesis
      using True by (simp add: addToStore_bad_magic [OF True None assms])
  next
    case (Some e)
    have "\<not> (\<forall>r \<in> set (references info).
               r = infoPath info \<or> (\<exists>n. fst (queryPathInfo cfg st r) = Inr n))"
      using Some verifyReferences_valid [of cfg st st "references info" info] by auto
    then show ?thesis
      using True by (auto simp: addToStore_bad_reference [OF True Some])
  qed
qed

theorem addToStore_bad_magic_rejected_witness:
  "files (snd (addToStore (exampleConfig []) emptyCache helloInfo ''not an archive'' False)) =
     files emptyCache \<and>
   \<not> isValidPath' emptyCache (infoPath helloInfo) \<and>
   fst (addToStore (exampleConfig []) emptyCache helloInfo ''not an archive'' False) =
     Inl (AssertionFailure ''nar->compare(0, narMagic.size(), narMagic) == 0'')"
proof -
  have 1: "take (length (narMagic (exampleConfig []))) ''not an archive'' \<noteq> narMagic (exampleConfig [])"
    and 2: "\<not> isValidPath' emptyCache (infoPath helloInfo)"
    and 3: "references helloInfo = []"
    by code_simp+
  show ?thesis
    using addToStore_bad_magic_rejected [OF 1, of emptyCache helloInfo False] 2 3 by simp
qed

text \<open>
  C6, as stated: the second of two calls with the same \<open>info\<close> and content increments
  the counter \<open>narWriteAverted\<close>. It does not: after the first call the path is valid,
  and the second returns before it reaches the counters. Here both calls return, and
  the counter is 0 after each.
\<close>

theorem addToStore_twice_averted_counterexample:
  "fst (addToStore (exampleConfig []) emptyCache helloInfo helloNar False) = Inr () \<and>
   fst (addToStore (exampleConfig []) helloCache helloInfo helloNar False) = Inr () \<and>
   narWriteAverted (stats helloCache) = 0 \<and>
   narWriteAverted (stats (snd (addToStore (exampleConfig []) helloCache helloInfo helloNar False))) = 0"
  by code_simp

text \<open>
  C6, amended: for every \<open>info\<close> and NAR, when a call of \<open>addToStore\<close> with \<open>repair\<close> off
  returns, a second call with the same \<open>info\<close> and NAR returns and leaves the state of
  the cache as the first call left it: files, caches and counters, \<open>narWriteAverted\<close>
  among them.
\<close>

theorem addToStore_twice:
  assumes "addToStore cfg st info nar False = (Inr (), st1)"
  shows "addToStore cfg st1 info nar False = (Inr (), st1) \<and>
         narWriteAverted (stats (snd (addToStore cfg st1 info nar False))) = narWriteAverted (stats st1)"
proof -
  have "isValidPath' st1 (infoPath info)"
  proof (cases "isValidPath' st (infoPath info)")
    case True
    then show ?thesis using assms by (simp add: addToStore_skip)
  next
    case False
    let ?st = "snd (verifyReferences cfg st info (references info))"
    let ?n = "(newNarInfo info)\<lparr>narSize := length nar,
                                 narHash := Some (hashString (baseStore cfg) htSHA256 nar)\<rparr>"
    have skip: "False \<or> \<not> isValidPath' st (infoPath info)"
      using False by simp
    have refs: "fst (verifyReferences cfg st info (references info)) = None"
    proof (cases "fst (verifyReferences cfg st info (references info))")
      case (Some e)
      then show ?thesis
        using assms addToStore_bad_reference [OF skip Some, of nar] by simp
    qed simp
    have magic: "take (length (narMagic cfg)) nar = narMagic cfg"
      using assms addToStore_bad_magic [OF skip refs, of nar] by auto
    have "narHash info = None \<or> narHash info = Some (hashString (baseStore cfg) htSHA256 nar)"
      using assms addToStore_bad_hash [OF skip refs magic] by (cases "narHash info") auto
    then have "storeNar cfg ?st info ?n nar False = (Inr (), st1)"
      using assms addToStore_storeNar [OF skip refs magic] by simp
    then have "isValidPath' st1 (infoPath ?n)"
      by (rule isValidPath'_storeNar)
    then show ?thesis by (simp add: newNarInfo_def)
  qed
  then show ?thesis by (simp add: addToStore_skip)
qed

theorem addToStore_twice_witness:
  "fst (addToStore (exampleConfig []) emptyCache helloInfo helloNar False) = Inr () \<and>
   addToStore (exampleConfig []) helloCache helloInfo helloNar False = (Inr (), helloCache)"
proof -
  have 1: "fst (addToStore (exampleConfig []) emptyCache helloInfo helloNar False) = Inr ()"
    by code_simp
  then have "addToStore (exampleConfig []) emptyCache helloInfo helloNar False = (Inr (), helloCache)"
    by (simp add: helloCache_def prod_eq_iff)
  then show ?thesis
    using 1 addToStore_twice [of "exampleConfig []" emptyCache helloInfo helloNar helloCache] by simp
qed

section \<open>The binary cache store: export and signatures\<close>

text \<open>
  C8: for every store path whose \<open>queryPathInfo\<close> returns a path info, when the
  decompression sink has been made and the fetch of \<open>info.url\<close> raises
  \<open>NoSuchBinaryCacheFile\<close>, \<open>narFromPath\<close> raises \<open>SubstituteGone\<close> with the same message.
  At the query layer, \<open>getFile\<close> on the same key returns a null pointer and raises
  nothing.
\<close>

theorem narFromPath_substitute_gone:
  assumes "queryPathInfo cfg st storePath = (Inr info, st')"
    and "makeDecompressionSink cfg (compression info) = Inr decompressor"
    and "getFile_sink st' (url info) = Inl (NoSuchBinaryCacheFile msg)"
  shows "narFromPath cfg st storePath = (Inl (SubstituteGone msg), st') \<and>
         getFile st' (url info) = Inr None"
  using assms by (simp add: narFromPath_def getFile_def)

theorem narFromPath_substitute_gone_witness:
  "fst (queryPathInfo (exampleConfig []) goneCache helloPath) = Inr helloNarInfo \<and>
   getFile_sink goneCache (url helloNarInfo) = Inl (NoSuchBinaryCacheFile (url helloNarInfo)) \<and>
   fst (narFromPath (exampleConfig []) goneCache helloPath) = Inl (SubstituteGone (url helloNarInfo)) \<and>
   getFile goneCache (url helloNarInfo) = Inr None"
proof -
  have 1: "fst (queryPathInfo (exampleConfig []) goneCache helloPath) = Inr helloNarInfo"
    and 3: "getFile_sink goneCache (url helloNarInfo) = Inl (NoSuchBinaryCacheFile (url helloNarInfo))"
    and 0: "lookupCaches goneCache (hashPart helloPath) = Some (Some helloNarInfo)"
    by code_simp+
  have 2: "makeDecompressionSink (exampleConfig []) (compression helloNarInfo) = Inr (\<lambda>data. Inr data)"
    by (simp add: exampleConfig_def helloNarInfo_def)
  have 4: "snd (queryPathInfo (exampleConfig []) goneCache helloPath) = goneCache"
    using 0 by (cases rule: queryPathInfo_cases [of goneCache helloPath "exampleConfig []"]) simp_all
  have "queryPathInfo (exampleConfig []) goneCache helloPath = (Inr helloNarInfo, goneCache)"
    using 1 4 by (simp add: prod_eq_iff)
  then show ?thesis
    using narFromPath_substitute_gone [OF _ 2 3] 1 3 by simp
qed

text \<open>
  C9: for every store path \<open>p\<close> for which \<open>queryPathInfo\<close> returns a record, and every set
  of signatures, \<open>addSignatures\<close> returns; it writes to the \<open>.narinfo\<close> key of the record's
  path the text of the record with the new signatures joined to its \<open>sigs\<close> and every
  other field as it was, and changes no other file; the caches then hold that record.
  The key is \<open>p\<close>'s \<open>.narinfo\<close> key when the record has \<open>p\<close>'s hash part, as a record
  found under \<open>p\<close>'s key has in a cache written by this store.
\<close>

theorem addSignatures_frame:
  assumes "queryPathInfo cfg st p = (Inr info, st1)"
  shows "\<exists>info' st'.
           addSignatures cfg st p newSigs = (Inr (), st') \<and>
           set (sigs info') = set (sigs info) \<union> set newSigs \<and>
           info'\<lparr>sigs := sigs info\<rparr> = info \<and>
           files st' = (files st)(narInfoFileFor (infoPath info) \<mapsto> narInfoToString cfg info') \<and>
           lookupCaches st' (hashPart (infoPath info)) = Some (Some info') \<and>
           (hashPart (infoPath info) = hashPart p \<longrightarrow>
              narInfoFileFor (infoPath info) = narInfoFileFor p \<and>
              fst (queryPathInfo cfg st' p) = Inr info')"
proof -
  let ?info' = "info\<lparr>sigs := fold set_insert newSigs (sigs info)\<rparr>"
  let ?st' = "writeNarInfo cfg st1 ?info'"
  have f: "files st1 = files st"
    using files_queryPathInfo [of cfg st p] assms by simp
  have 1: "addSignatures cfg st p newSigs = (Inr (), ?st')"
    using assms by (simp add: addSignatures_def Let_def)
  have 2: "set (sigs ?info') = set (sigs info) \<union> set newSigs"
    using set_fold_set_insert [of "\<lambda>s. s" newSigs "sigs info"] by auto
  have 3: "files ?st' = (files st)(narInfoFileFor (infoPath info) \<mapsto> narInfoToString cfg ?info')"
    using f by (simp add: files_writeNarInfo)
  have 4: "lookupCaches ?st' (hashPart (infoPath info)) = Some (Some ?info')"
    using lookupCaches_writeNarInfo [of cfg st1 ?info'] by simp
  have 5: "hashPart (infoPath info) = hashPart p \<longrightarrow>
              narInfoFileFor (infoPath info) = narInfoFileFor p \<and>
              fst (queryPathInfo cfg ?st' p) = Inr ?info'"
    using 4 by (auto simp: narInfoFileFor_def fst_queryPathInfo)
  show ?thesis
    using 1 2 3 4 5 by (intro exI [of _ ?info'] exI [of _ ?st']) simp
qed

theorem addSignatures_frame_witness:
  "fst (queryPathInfo (exampleConfig []) helloCache helloPath) = Inr helloNarInfo \<and>
   (\<exists>info' st'.
      addSignatures (exampleConfig []) helloCache helloPath [''cache.example.org-1:c2ln''] = (Inr (), st') \<and>
      set (sigs info') = set (sigs helloNarInfo) \<union> {''cache.example.org-1:c2ln''} \<and>
      info'\<lparr>sigs := sigs helloNarInfo\<rparr> = helloNarInfo \<and>
      files st' = (files helloCache)(narInfoFileFor helloPath \<mapsto>
                     narInfoToString (exampleConfig []) info') \<and>
      fst (queryPathInfo (exampleConfig []) st' helloPath) = Inr info')"
proof -
  have 1: "fst (queryPathInfo (exampleConfig []) helloCache helloPath) = Inr helloNarInfo"
    and 3: "infoPath helloNarInfo = helloPath"
    and 0: "lookupCaches helloCache (hashPart helloPath) = Some (Some helloNarInfo)"
    by code_simp+
  have 2: "snd (queryPathInfo (exampleConfig []) helloCache helloPath) = helloCache"
    using 0 by (cases rule: queryPathInfo_cases [of helloCache helloPath "exampleConfig []"]) simp_all
  have "queryPathInfo (exampleConfig []) helloCache helloPath = (Inr helloNarInfo, helloCache)"
    using 1 2 by (simp add: prod_eq_iff)
  from addSignatures_frame [OF this, of "[''cache.example.org-1:c2ln'']"] 1 3
  show ?thesis by auto
qed

end
